theory Spec2Isabelle
  imports Complex_Main "HOL-Library.Char_ord" "HOL-Library.List_Lexorder"
    "HOL-Library.Product_Lexorder" "HOL-Library.Multiset"
begin

section \<open>Text values\<close>

text \<open>
  A Python \<open>str\<close> is a sequence of code points. The model takes the code points
  0 to 255, one \<^typ>\<open>char\<close> each, so a cell text is a \<^typ>\<open>string\<close>. On
  that range the classes used by \<open>comb.py\<close> are:
  \<^item> whitespace, as \<open>str.strip()\<close> and the regular expression class \<open>\s\<close> read it
    for a \<open>str\<close>: 9 to 13, 28 to 32, 133 and 160;
  \<^item> the class \<open>[\x00-\x1f\x7f-\x9f]\<close>: 0 to 31 and 127 to 159;
  \<^item> the class \<open>\d\<close>: the ten digits 48 to 57;
  \<^item> the class \<open>[oO]\<close>.
\<close>

definition is_space :: "char \<Rightarrow> bool" where
  "is_space c =
     (let n = (of_char c :: nat)
      in (9 \<le> n \<and> n \<le> 13) \<or> (28 \<le> n \<and> n \<le> 32) \<or> n = 133 \<or> n = 160)"

definition is_control :: "char \<Rightarrow> bool" where
  "is_control c = (let n = (of_char c :: nat) in n \<le> 31 \<or> (127 \<le> n \<and> n \<le> 159))"

definition is_digit :: "char \<Rightarrow> bool" where
  "is_digit c = (let n = (of_char c :: nat) in 48 \<le> n \<and> n \<le> 57)"

definition is_oO :: "char \<Rightarrow> bool" where
  "is_oO c = (c = CHR ''o'' \<or> c = CHR ''O'')"

text \<open>\<open>s.strip()\<close>: whitespace is dropped at both ends.\<close>

definition strip :: "string \<Rightarrow> string" where
  "strip s = rev (dropWhile is_space (rev (dropWhile is_space s)))"

text \<open>
  \<open>re.sub(r'\s+', ' ', s)\<close>: scanning from the left, every maximal run of whitespace
  is replaced by one space.
\<close>

function collapse_ws :: "string \<Rightarrow> string" where
  "collapse_ws [] = []"
| "collapse_ws (c # cs) =
     (if is_space c then CHR '' '' # collapse_ws (dropWhile is_space cs)
      else c # collapse_ws cs)"
  by pat_completeness auto
termination
  by (relation "measure length") (auto simp: length_dropWhile_le le_imp_less_Suc)

text \<open>\<open>re.sub(r'[\x00-\x1f\x7f-\x9f]', '', s)\<close>: every character of the class is deleted.\<close>

definition remove_control :: "string \<Rightarrow> string" where
  "remove_control s = filter (\<lambda>c. \<not> is_control c) s"

text \<open>\<open>re.search(r'\d', s)\<close> finds a match: the text holds a digit.\<close>

definition contains_digit :: "string \<Rightarrow> bool" where
  "contains_digit s = (\<exists>c \<in> set s. is_digit c)"

text \<open>
  The three substitutions of the reference column match one character, \<open>[oO]\<close>, under
  zero-width conditions on its neighbours. \<open>re.sub\<close> replaces every match, and the
  lookarounds read the text the substitution was given, so a substitution is decided
  position by position: \<open>re_sub_at m rep s\<close> puts \<open>rep\<close> at the positions \<open>i\<close> with
  \<open>m s i\<close>.
\<close>

definition re_sub_at :: "(string \<Rightarrow> nat \<Rightarrow> bool) \<Rightarrow> char \<Rightarrow> string \<Rightarrow> string" where
  "re_sub_at m rep s = map (\<lambda>i. if m s i then rep else s ! i) [0..<length s]"

text \<open>\<open>(?<=\d)[oO](?=\d)\<close>: a digit on the left and a digit on the right.\<close>

definition match_between :: "string \<Rightarrow> nat \<Rightarrow> bool" where
  "match_between s i =
     (i < length s \<and> is_oO (s ! i) \<and> 0 < i \<and> is_digit (s ! (i - 1))
      \<and> i + 1 < length s \<and> is_digit (s ! (i + 1)))"

text \<open>\<open>^[oO](?=\d)\<close>: the first character, with a digit on the right.\<close>

definition match_start :: "string \<Rightarrow> nat \<Rightarrow> bool" where
  "match_start s i =
     (i = 0 \<and> i < length s \<and> is_oO (s ! i) \<and> i + 1 < length s \<and> is_digit (s ! (i + 1)))"

text \<open>
  \<open>(?<=\d)[oO]$\<close>: a digit on the left; \<open>$\<close> holds at the end of the text and also
  just before a line feed that ends the text.
\<close>

definition match_end :: "string \<Rightarrow> nat \<Rightarrow> bool" where
  "match_end s i =
     (i < length s \<and> is_oO (s ! i) \<and> 0 < i \<and> is_digit (s ! (i - 1))
      \<and> (i + 1 = length s \<or> (i + 2 = length s \<and> s ! (i + 1) = CHR 0x0A)))"

definition sub_between :: "string \<Rightarrow> string" where
  "sub_between s = re_sub_at match_between CHR ''0'' s"

definition sub_start :: "string \<Rightarrow> string" where
  "sub_start s = re_sub_at match_start CHR ''0'' s"

definition sub_end :: "string \<Rightarrow> string" where
  "sub_end s = re_sub_at match_end CHR ''0'' s"

text \<open>
  Lines 61 to 67: the three substitutions, in this order, on the values that hold a
  digit; the other values are left as they are.
\<close>

definition fix_o :: "string \<Rightarrow> string" where
  "fix_o s = (if contains_digit s then sub_end (sub_start (sub_between s)) else s)"

text \<open>Lines 41 to 44, on one value of the name column.\<close>

definition clean_name_text :: "string \<Rightarrow> string" where
  "clean_name_text s = remove_control (collapse_ws (strip s))"

text \<open>Lines 56 to 67, on one value of the reference column.\<close>

definition clean_ref_text :: "string \<Rightarrow> string" where
  "clean_ref_text s = fix_o (remove_control (strip s))"


section \<open>Cells and Series\<close>

text \<open>
  A cell of a DataFrame is
  \<^item> a text (\<open>str\<close>);
  \<^item> an integer;
  \<^item> the float \<open>NaN\<close>, the missing value that \<open>read_csv\<close> and \<open>read_excel\<close>
    put for an empty field;
  \<^item> one of the other null values: \<open>None\<close>, \<open>NaT\<close> (a missing date) and \<open>pd.NA\<close>;
  \<^item> any other object (a float other than \<open>NaN\<close>, a Boolean, a time stamp), given by
    the text that \<open>str\<close> prints for it: \<open>Object ''1.0''\<close> is the float 1.0.

  A Series is the list of the cells of one column, in row order. The Series of texts are
  those of pandas before version 3: \<open>astype(str)\<close> gives a Series of \<open>object\<close>
  dtype with the \<open>str\<close> of every cell, also of a null cell, which is what line 38
  of \<open>comb.py\<close> relies on.
\<close>

datatype cell = Text string | Number int | NaN | PyNone | NaT | NA | Object string

function digits_of :: "nat \<Rightarrow> string" where
  "digits_of n =
     (if n < 10 then [''0123456789'' ! n]
      else digits_of (n div 10) @ [''0123456789'' ! (n mod 10)])"
  by pat_completeness auto
termination
  by (relation "measure id") auto

text \<open>
  \<open>str(x)\<close>: a text is itself, an integer is in decimal, the float \<open>NaN\<close> is
  \<open>nan\<close>, the other nulls are \<open>None\<close>, \<open>NaT\<close> and \<open><NA>\<close>.
\<close>

definition py_str :: "cell \<Rightarrow> string" where
  "py_str v =
     (case v of
        Text s \<Rightarrow> s
      | Number i \<Rightarrow> (if i < 0 then CHR ''-'' # digits_of (nat (- i)) else digits_of (nat i))
      | NaN \<Rightarrow> ''nan''
      | PyNone \<Rightarrow> ''None''
      | NaT \<Rightarrow> ''NaT''
      | NA \<Rightarrow> ''<NA>''
      | Object s \<Rightarrow> s)"

text \<open>\<open>pd.isna(x)\<close>: the cell is one of the null values.\<close>

definition isna :: "cell \<Rightarrow> bool" where
  "isna v = (v = NaN \<or> v = PyNone \<or> v = NaT \<or> v = NA)"

text \<open>\<open>.astype(str)\<close>, on one cell.\<close>

definition astype_str :: "cell \<Rightarrow> cell" where
  "astype_str v = Text (py_str v)"

text \<open>\<open>.replace(a, b)\<close> of a Series, on one cell: a cell equal to \<open>a\<close> becomes \<open>b\<close>.\<close>

definition replace_value :: "string \<Rightarrow> string \<Rightarrow> cell \<Rightarrow> cell" where
  "replace_value a b v = (if v = Text a then Text b else v)"

text \<open>
  A method of the \<open>.str\<close> accessor, on one cell: it works on a text and gives the
  missing value on any other cell.
\<close>

fun str_apply :: "(string \<Rightarrow> string) \<Rightarrow> cell \<Rightarrow> cell" where
  "str_apply f (Text s) = Text (f s)"
| "str_apply f v = NaN"

text \<open>\<open>.str.contains(r'\d', na=False)\<close>, on one cell.\<close>

fun str_contains_digit :: "cell \<Rightarrow> bool" where
  "str_contains_digit (Text s) = contains_digit s"
| "str_contains_digit v = False"

text \<open>\<open>a + sep + b\<close> on the cells of two Series of texts.\<close>

fun str_concat :: "cell \<Rightarrow> string \<Rightarrow> cell \<Rightarrow> cell" where
  "str_concat (Text a) sep (Text b) = Text (a @ sep @ b)"
| "str_concat u sep v = NaN"

text \<open>\<open>.isin(['', 'nan']) | .isna()\<close>, on one cell.\<close>

definition is_empty_cell :: "cell \<Rightarrow> bool" where
  "is_empty_cell v = (v = Text [] \<or> v = Text ''nan'' \<or> isna v)"

text \<open>\<open>(xs != ys).sum()\<close>: the number of rows where two Series differ.\<close>

definition count_changed :: "cell list \<Rightarrow> cell list \<Rightarrow> nat" where
  "count_changed xs ys = length (filter (\<lambda>(x, y). x \<noteq> y) (zip xs ys))"

text \<open>
  \<open>s.loc[mask] = f(s.loc[mask])\<close>: the rows selected by the mask are transformed, the
  others are kept.
\<close>

definition loc_apply :: "bool list \<Rightarrow> (cell \<Rightarrow> cell) \<Rightarrow> cell list \<Rightarrow> cell list" where
  "loc_apply msk f vs = map (\<lambda>(m, v). if m then f v else v) (zip msk vs)"

text \<open>\<open>.duplicated(keep=False)\<close>: every occurrence of a value that occurs more than once.\<close>

definition duplicated :: "'a list \<Rightarrow> bool list" where
  "duplicated ks = map (\<lambda>k. 1 < count_list ks k) ks"

section \<open>Tables\<close>

text \<open>
  A DataFrame with distinct column labels and the default row index: the list of its
  column labels and the list of its rows, each row a map from column label to cell.
\<close>

type_synonym row = "string \<rightharpoonup> cell"

record table =
  columns :: "string list"
  rows :: "row list"

text \<open>The cell of a row at a column; a row without the column holds the missing value.\<close>

definition cell_of :: "row \<Rightarrow> string \<Rightarrow> cell" where
  "cell_of r c = (case r c of Some v \<Rightarrow> v | None \<Rightarrow> NaN)"

text \<open>\<open>t[c]\<close>: the Series of column \<open>c\<close>.\<close>

definition get_col :: "table \<Rightarrow> string \<Rightarrow> cell list" where
  "get_col t c = map (\<lambda>r. cell_of r c) (rows t)"

text \<open>\<open>t[c] = vs\<close>: column \<open>c\<close> is overwritten, or added as the last column.\<close>

definition set_col :: "table \<Rightarrow> string \<Rightarrow> cell list \<Rightarrow> table" where
  "set_col t c vs =
     \<lparr>columns = (if c \<in> set (columns t) then columns t else columns t @ [c]),
      rows = map (\<lambda>(r, v). r(c \<mapsto> v)) (zip (rows t) vs)\<rparr>"

text \<open>\<open>t[mask]\<close>: the rows selected by a Boolean Series, in order.\<close>

definition bool_index :: "table \<Rightarrow> bool list \<Rightarrow> table" where
  "bool_index t msk = t\<lparr>rows := map fst (filter snd (zip (rows t) msk))\<rparr>"

text \<open>\<open>t.drop(c, axis=1)\<close>, for a column the table has.\<close>

definition drop_col :: "table \<Rightarrow> string \<Rightarrow> table" where
  "drop_col t c = \<lparr>columns = removeAll c (columns t), rows = map (\<lambda>r. r(c := None)) (rows t)\<rparr>"

text \<open>Lines 37 to 44: the name column is cleaned in place.\<close>

definition clean_names :: "string \<Rightarrow> table \<Rightarrow> table" where
  "clean_names c t =
     (let t1 = set_col t c (map astype_str (get_col t c));
          t2 = set_col t1 c (map (replace_value ''nan'' []) (get_col t1 c));
          t3 = set_col t2 c
                 (map (str_apply remove_control)
                   (map (str_apply collapse_ws)
                     (map (str_apply strip) (get_col t2 c))))
      in t3)"

text \<open>Lines 52 to 67: the reference column is cleaned in place.\<close>

definition clean_refs :: "string \<Rightarrow> table \<Rightarrow> table" where
  "clean_refs c t =
     (let t1 = set_col t c (map astype_str (get_col t c));
          t2 = set_col t1 c (map (replace_value ''nan'' []) (get_col t1 c));
          t3 = set_col t2 c
                 (map (str_apply remove_control) (map (str_apply strip) (get_col t2 c)));
          mask_has_digits = map str_contains_digit (get_col t3 c);
          t4 = set_col t3 c
                 (loc_apply mask_has_digits
                   (\<lambda>v. str_apply sub_end (str_apply sub_start (str_apply sub_between v)))
                   (get_col t3 c))
      in t4)"

text \<open>Lines 72 and 73: the column \<open>_temp_key\<close> is written.\<close>

definition add_temp_key :: "string \<Rightarrow> string \<Rightarrow> table \<Rightarrow> table" where
  "add_temp_key n r t =
     set_col t ''_temp_key''
       (map (\<lambda>(a, b). str_concat a ''|'' b) (zip (get_col t n) (get_col t r)))"

section \<open>The warnings\<close>

text \<open>
  A warning is a Python \<open>str\<close>, here the list of its code points: the messages hold
  characters above 255. \<open>code_points\<close> reads a text of the model as such a list. The
  f-strings of lines 83 to 105 follow, each with the values it prints; 233 is the
  letter e with an acute accent, 8226 is the bullet, and the other numbers above 255
  are the pictographs the messages start with.
\<close>

type_synonym message = "nat list"

definition code_points :: "string \<Rightarrow> message" where
  "code_points s = map of_char s"

definition msg_names_cleaned :: "nat \<Rightarrow> message" where
  "msg_names_cleaned names_changed =
     [0x270F, 0xFE0F] @ code_points '' '' @ code_points (digits_of names_changed)
     @ code_points '' noms de produits ont '' @ [0xE9] @ code_points ''t'' @ [0xE9]
     @ code_points '' nettoy'' @ [0xE9] @ code_points ''s''"

definition msg_refs_corrected :: "nat \<Rightarrow> message" where
  "msg_refs_corrected refs_changed =
     [0x1F527] @ code_points '' '' @ code_points (digits_of refs_changed)
     @ code_points '' r'' @ [0xE9] @ code_points ''f'' @ [0xE9]
     @ code_points ''rences ont '' @ [0xE9] @ code_points ''t'' @ [0xE9]
     @ code_points '' corrig'' @ [0xE9] @ code_points ''es''"

definition msg_empty_names :: "nat \<Rightarrow> message" where
  "msg_empty_names empty_names_unique =
     [0x26A0, 0xFE0F] @ code_points '' '' @ code_points (digits_of empty_names_unique)
     @ code_points '' noms vides dans les donn'' @ [0xE9] @ code_points ''es uniques''"

definition msg_empty_refs :: "nat \<Rightarrow> message" where
  "msg_empty_refs empty_refs_unique =
     [0x26A0, 0xFE0F] @ code_points '' '' @ code_points (digits_of empty_refs_unique)
     @ code_points '' r'' @ [0xE9] @ code_points ''f'' @ [0xE9]
     @ code_points ''rences vides dans les donn'' @ [0xE9] @ code_points ''es uniques''"

definition msg_duplicate_groups :: "nat \<Rightarrow> message" where
  "msg_duplicate_groups n_groups =
     [0x1F504] @ code_points '' '' @ code_points (digits_of n_groups)
     @ code_points '' groupes de doublons trouv'' @ [0xE9] @ code_points ''s''"

definition msg_top_header :: message where
  "msg_top_header = code_points ''Top 5 doublons:''"

definition msg_top_duplicate :: "string \<Rightarrow> string \<Rightarrow> nat \<Rightarrow> message" where
  "msg_top_duplicate name ref cnt =
     code_points ''  '' @ [0x2022] @ code_points '' '' @ [39] @ code_points name @ [39]
     @ code_points '' | '' @ [39] @ code_points ref @ [39] @ code_points '' : ''
     @ code_points (digits_of cnt) @ code_points '' occurrences''"

datatype error = ValueError string | KeyError string | ZeroDivisionError

text \<open>
  \<open>t.groupby([n, r]).size()\<close>: the distinct pairs of the two columns, in the order of
  the pairs, each with the number of rows that hold it.
\<close>

definition group_sizes :: "table \<Rightarrow> string \<Rightarrow> string \<Rightarrow> ((string \<times> string) \<times> nat) list" where
  "group_sizes t n r =
     (let pairs = map (\<lambda>(a, b). (py_str a, py_str b)) (zip (get_col t n) (get_col t r))
      in map (\<lambda>k. (k, count_list pairs k)) (sort (remdups pairs)))"

text \<open>
  \<open>.sort_values(ascending=False)\<close> of the Series of group sizes. pandas sorts with
  the quicksort of NumPy, which is not stable: what it does with groups of equal size
  depends on the library version and on the machine. The sorting function is therefore a
  parameter of the model, \<open>sort_values\<close>, and \<open>sorts_descending\<close> is what pandas
  documents of it: the result holds the same groups, by falling size.
\<close>

type_synonym group = "(string \<times> string) \<times> nat"

definition sorts_descending :: "(group list \<Rightarrow> group list) \<Rightarrow> bool" where
  "sorts_descending sort_values =
     (\<forall>gs. mset (sort_values gs) = mset gs
           \<and> sorted (map (\<lambda>(k, c). - int c) (sort_values gs)))"

text \<open>
  One such function, the stable sort, to run the examples with. On the groups of the
  examples that name it, which have no two groups of the same size, every such function
  gives the same list.
\<close>

definition stable_sort_values :: "group list \<Rightarrow> group list" where
  "stable_sort_values gs = sort_key (\<lambda>(k, c). - int c) gs"

text \<open>\<open>.sort_values(ascending=False).head(5)\<close>: the first five of the sorted groups.\<close>

definition top_duplicates :: "(group list \<Rightarrow> group list) \<Rightarrow> group list \<Rightarrow> group list" where
  "top_duplicates sort_values groups = take 5 (sort_values groups)"

text \<open>
  Lines 82 to 105. \<open>unique_df[c]\<close> raises \<open>KeyError\<close> for a label that is not a column
  of \<open>unique_df\<close>.
\<close>

definition report ::
  "(group list \<Rightarrow> group list) \<Rightarrow> nat \<Rightarrow> nat \<Rightarrow> table \<Rightarrow> table \<Rightarrow> string \<Rightarrow> string
     \<Rightarrow> error + message list" where
  "report sort_values names_changed refs_changed unique_df duplicate_df
       product_name_col product_ref_col =
     (let w1 = (if names_changed > 0 then [msg_names_cleaned names_changed] else []);
          w2 = w1 @ (if refs_changed > 0 then [msg_refs_corrected refs_changed] else [])
      in if product_name_col \<notin> set (columns unique_df) then Inl (KeyError product_name_col)
         else if product_ref_col \<notin> set (columns unique_df) then Inl (KeyError product_ref_col)
         else
           let empty_names_unique =
                 length (filter is_empty_cell (get_col unique_df product_name_col));
               empty_refs_unique =
                 length (filter is_empty_cell (get_col unique_df product_ref_col));
               w3 = w2 @ (if empty_names_unique > 0 then [msg_empty_names empty_names_unique] else []);
               w4 = w3 @ (if empty_refs_unique > 0 then [msg_empty_refs empty_refs_unique] else [])
           in if length (rows duplicate_df) > 0
              then
                let duplicate_groups = group_sizes duplicate_df product_name_col product_ref_col
                in Inr (w4 @ [msg_duplicate_groups (length duplicate_groups), msg_top_header]
                         @ map (\<lambda>((name, ref), cnt). msg_top_duplicate name ref cnt)
                             (top_duplicates sort_values duplicate_groups))
              else Inr w4)"

section \<open>The store and \<open>clean_inventory_data\<close>\<close>

text \<open>
  DataFrames are objects: the store holds the table of every DataFrame, at its address.
  A new DataFrame gets the next address. \<open>df.copy()\<close> is a new DataFrame with the
  table of \<open>df\<close>.
\<close>

type_synonym store = "table list"

definition df_new :: "store \<Rightarrow> table \<Rightarrow> nat \<times> store" where
  "df_new st t = (length st, st @ [t])"

text \<open>
  \<open>clean_inventory_data(df, product_name_col, product_ref_col)\<close>, lines 17 to 107. The
  caller gives the address of \<open>df\<close>; the result is the exception raised or the
  addresses of \<open>unique_df\<close> and \<open>duplicate_df\<close> with the warnings, and the store
  after the call. The assignments to the columns of \<open>cleaned_df\<close> update the table at
  its address. The first argument is the sorting function of pandas, see
  \<open>sorts_descending\<close>.
\<close>

definition clean_inventory_data ::
  "(group list \<Rightarrow> group list) \<Rightarrow> store \<Rightarrow> nat \<Rightarrow> string \<Rightarrow> string
     \<Rightarrow> (error + nat \<times> nat \<times> message list) \<times> store" where
  "clean_inventory_data sort_values st df product_name_col product_ref_col =
     (if product_name_col \<notin> set (columns (st ! df))
      then (Inl (ValueError product_name_col), st)
      else if product_ref_col \<notin> set (columns (st ! df))
      then (Inl (ValueError product_ref_col), st)
      else
        let (cleaned_df, st1) = df_new st (st ! df);
            original_names = get_col (st1 ! cleaned_df) product_name_col;
            st2 = st1[cleaned_df := clean_names product_name_col (st1 ! cleaned_df)];
            names_changed =
              count_changed (map astype_str original_names)
                (get_col (st2 ! cleaned_df) product_name_col);
            original_refs = get_col (st2 ! cleaned_df) product_ref_col;
            st3 = st2[cleaned_df := clean_refs product_ref_col (st2 ! cleaned_df)];
            refs_changed =
              count_changed (map astype_str original_refs)
                (get_col (st3 ! cleaned_df) product_ref_col);
            st4 = st3[cleaned_df :=
                    add_temp_key product_name_col product_ref_col (st3 ! cleaned_df)];
            duplicate_mask = duplicated (get_col (st4 ! cleaned_df) ''_temp_key'');
            (unique_df, st5) =
              df_new st4
                (drop_col (bool_index (st4 ! cleaned_df) (map Not duplicate_mask)) ''_temp_key'');
            (duplicate_df, st6) =
              df_new st5 (drop_col (bool_index (st5 ! cleaned_df) duplicate_mask) ''_temp_key'')
        in case report sort_values names_changed refs_changed (st6 ! unique_df)
                  (st6 ! duplicate_df) product_name_col product_ref_col of
             Inl e \<Rightarrow> (Inl e, st6)
           | Inr warnings \<Rightarrow> (Inr (unique_df, duplicate_df, warnings), st6))"

section \<open>The cleaning, row by row\<close>

text \<open>
  What lines 37 to 79 compute, read per cell and per row; the lemmas below prove that
  \<open>clean_inventory_data\<close> computes exactly this. \<open>name_cell\<close> and \<open>ref_cell\<close>
  are the cleaned cells of the two columns, \<open>normalized_row\<close> is a row of
  \<open>cleaned_df\<close> after line 67, \<open>temp_key\<close> its cell in column \<open>_temp_key\<close>,
  \<open>output_row\<close> the row as \<open>unique_df\<close> or \<open>duplicate_df\<close> holds it, and
  \<open>is_duplicate\<close> the value of \<open>duplicate_mask\<close> for the row.
\<close>

definition nan_to_empty :: "string \<Rightarrow> string" where
  "nan_to_empty s = (if s = ''nan'' then [] else s)"

definition name_cell :: "cell \<Rightarrow> cell" where
  "name_cell v = Text (clean_name_text (nan_to_empty (py_str v)))"

definition ref_cell :: "cell \<Rightarrow> cell" where
  "ref_cell v = Text (clean_ref_text (nan_to_empty (py_str v)))"

definition normalized_row :: "string \<Rightarrow> string \<Rightarrow> row \<Rightarrow> row" where
  "normalized_row n r row =
     (let row1 = row(n \<mapsto> name_cell (cell_of row n))
      in row1(r \<mapsto> ref_cell (cell_of row1 r)))"

definition temp_key :: "string \<Rightarrow> string \<Rightarrow> row \<Rightarrow> cell" where
  "temp_key n r row =
     str_concat (cell_of (normalized_row n r row) n) ''|'' (cell_of (normalized_row n r row) r)"

definition keyed_row :: "string \<Rightarrow> string \<Rightarrow> row \<Rightarrow> row" where
  "keyed_row n r row = (normalized_row n r row)(''_temp_key'' \<mapsto> temp_key n r row)"

definition output_row :: "string \<Rightarrow> string \<Rightarrow> row \<Rightarrow> row" where
  "output_row n r row = (keyed_row n r row)(''_temp_key'' := None)"

definition is_duplicate :: "table \<Rightarrow> string \<Rightarrow> string \<Rightarrow> row \<Rightarrow> bool" where
  "is_duplicate t n r row =
     (1 < count_list (map (temp_key n r) (rows t)) (temp_key n r row))"

definition map_col :: "string \<Rightarrow> (row \<Rightarrow> cell) \<Rightarrow> table \<Rightarrow> table" where
  "map_col c f t =
     \<lparr>columns = (if c \<in> set (columns t) then columns t else columns t @ [c]),
      rows = map (\<lambda>row. row(c \<mapsto> f row)) (rows t)\<rparr>"

text \<open>
  \<open>a / b\<close> on two lengths: Python raises \<open>ZeroDivisionError\<close> for \<open>b = 0\<close>; the
  quotient is read as a rational number.
\<close>

definition py_truediv :: "nat \<Rightarrow> nat \<Rightarrow> error + rat" where
  "py_truediv a b = (if b = 0 then Inl ZeroDivisionError else Inr (of_nat a / of_nat b))"

text \<open>
  Line 227 of \<open>main\<close>, the duplicate rate in percent:
  \<open>(len(duplicate_df) / len(df)) * 100 if len(df) > 0 else 0\<close>; \<open>n_duplicate\<close> is
  \<open>len(duplicate_df)\<close> and \<open>n_total\<close> is \<open>len(df)\<close>. The division is evaluated
  only when the condition holds.
\<close>

definition duplicate_rate :: "nat \<Rightarrow> nat \<Rightarrow> error + rat" where
  "duplicate_rate n_duplicate n_total =
     (if n_total > 0
      then (case py_truediv n_duplicate n_total of
              Inl e \<Rightarrow> Inl e
            | Inr q \<Rightarrow> Inr (q * 100))
      else Inr 0)"

section \<open>The results of a run, in closed form\<close>

text \<open>
  The three tables a run that gets past the column checks leaves in the store, and the
  two counts of changed values, written with the row-by-row reading above. Lemma
  \<open>clean_inventory_data_run\<close> proves that \<open>clean_inventory_data\<close> produces them.
\<close>

definition cleaned_table :: "table \<Rightarrow> string \<Rightarrow> string \<Rightarrow> table" where
  "cleaned_table t n r =
     \<lparr>columns =
        (if ''_temp_key'' \<in> set (columns t) then columns t else columns t @ [''_temp_key'']),
      rows = map (keyed_row n r) (rows t)\<rparr>"

definition unique_table :: "table \<Rightarrow> string \<Rightarrow> string \<Rightarrow> table" where
  "unique_table t n r =
     \<lparr>columns = removeAll ''_temp_key'' (columns t),
      rows = map (output_row n r) (filter (\<lambda>row. \<not> is_duplicate t n r row) (rows t))\<rparr>"

definition duplicate_table :: "table \<Rightarrow> string \<Rightarrow> string \<Rightarrow> table" where
  "duplicate_table t n r =
     \<lparr>columns = removeAll ''_temp_key'' (columns t),
      rows = map (output_row n r) (filter (is_duplicate t n r) (rows t))\<rparr>"

definition names_changed_count :: "table \<Rightarrow> string \<Rightarrow> nat" where
  "names_changed_count t n =
     count_changed (map astype_str (get_col t n)) (map name_cell (get_col t n))"

definition refs_changed_count :: "table \<Rightarrow> string \<Rightarrow> string \<Rightarrow> nat" where
  "refs_changed_count t n r =
     (let original_refs = map (\<lambda>row. cell_of (row(n \<mapsto> name_cell (cell_of row n))) r) (rows t)
      in count_changed (map astype_str original_refs) (map ref_cell original_refs))"

text \<open>The pairs (name, reference) of the rows of a table, as \<open>groupby\<close> reads them.\<close>

definition key_pairs :: "table \<Rightarrow> string \<Rightarrow> string \<Rightarrow> (string \<times> string) list" where
  "key_pairs t n r = map (\<lambda>row. (py_str (cell_of row n), py_str (cell_of row r))) (rows t)"

text \<open>
  The pair of the cleaned name and the cleaned reference of a row, as texts: the cells of
  the row of \<open>cleaned_df\<close> at the two columns after line 67.
\<close>

definition normalized_pair :: "string \<Rightarrow> string \<Rightarrow> row \<Rightarrow> string \<times> string" where
  "normalized_pair n r row =
     (py_str (cell_of (normalized_row n r row) n), py_str (cell_of (normalized_row n r row) r))"

section \<open>The o-to-0 correction as the specification words it\<close>

text \<open>
  The specification names three positions of a letter \<open>o\<close> or \<open>O\<close>: between two
  digits, first with a digit after it, last with a digit before it. \<open>spec_fix_o\<close>
  replaces the letter at these positions, all read on the value it is given, when the
  value holds a digit.
\<close>

definition spec_fix_o_position :: "string \<Rightarrow> nat \<Rightarrow> bool" where
  "spec_fix_o_position s i =
     (is_oO (s ! i) \<and>
       ((0 < i \<and> i + 1 < length s \<and> is_digit (s ! (i - 1)) \<and> is_digit (s ! (i + 1)))
        \<or> (i = 0 \<and> 1 < length s \<and> is_digit (s ! 1))
        \<or> (0 < i \<and> i + 1 = length s \<and> is_digit (s ! (i - 1)))))"

definition spec_fix_o :: "string \<Rightarrow> string" where
  "spec_fix_o s =
     (if contains_digit s
      then map (\<lambda>i. if spec_fix_o_position s i then CHR ''0'' else s ! i) [0..<length s]
      else s)"

text \<open>
  Auxiliary notions of the proofs: a position matched by one of the three patterns of
  the source; a text with no whitespace at either end; a text whose control characters
  are all whitespace; a text where every whitespace character is a blank (code point 32)
  that no whitespace follows.
\<close>

definition o_position :: "string \<Rightarrow> nat \<Rightarrow> bool" where
  "o_position s i = (match_between s i \<or> match_start s i \<or> match_end s i)"

definition trimmed :: "string \<Rightarrow> bool" where
  "trimmed s = (s = [] \<or> (\<not> is_space (hd s) \<and> \<not> is_space (last s)))"

definition plain :: "string \<Rightarrow> bool" where
  "plain s = (\<forall>c \<in> set s. is_control c \<longrightarrow> is_space c)"

fun single_blanks :: "string \<Rightarrow> bool" where
  "single_blanks [] = True"
| "single_blanks (c # cs) =
     ((is_space c \<longrightarrow> c = CHR '' '' \<and> (cs = [] \<or> \<not> is_space (hd cs))) \<and> single_blanks cs)"

section \<open>Example tables\<close>

text \<open>The sample data of \<open>main\<close>, lines 329 to 334.\<close>

definition sample_table :: table where
  "sample_table =
     \<lparr>columns = [''designation'', ''reference'', ''quantite'', ''prix''],
      rows =
        [[''designation'' \<mapsto> Text ''Produit A'', ''reference'' \<mapsto> Text ''REF001'',
          ''quantite'' \<mapsto> Number 10, ''prix'' \<mapsto> Number 100],
         [''designation'' \<mapsto> Text ''Produit B'', ''reference'' \<mapsto> Text ''REF002'',
          ''quantite'' \<mapsto> Number 20, ''prix'' \<mapsto> Number 200],
         [''designation'' \<mapsto> Text ''Produit A'', ''reference'' \<mapsto> Text ''REF001'',
          ''quantite'' \<mapsto> Number 15, ''prix'' \<mapsto> Number 150],
         [''designation'' \<mapsto> Text ''Produit C'', ''reference'' \<mapsto> Text ''REF003'',
          ''quantite'' \<mapsto> Number 30, ''prix'' \<mapsto> Number 300]]\<rparr>"

text \<open>Two rows with different (name, reference) pairs and the same concatenation.\<close>

definition collision_table :: table where
  "collision_table =
     \<lparr>columns = [''name'', ''ref''],
      rows =
        [[''name'' \<mapsto> Text ''a|b'', ''ref'' \<mapsto> Text ''c''],
         [''name'' \<mapsto> Text ''a'', ''ref'' \<mapsto> Text ''b|c'']]\<rparr>"

text \<open>A table with a column that is named \<open>_temp_key\<close>, and the same with no row.\<close>

definition temp_key_table :: table where
  "temp_key_table =
     \<lparr>columns = [''name'', ''ref'', ''_temp_key''],
      rows = [[''name'' \<mapsto> Text ''bolt'', ''ref'' \<mapsto> Text ''B1'', ''_temp_key'' \<mapsto> Text ''x'']]\<rparr>"

definition empty_temp_key_table :: table where
  "empty_temp_key_table = \<lparr>columns = [''name'', ''ref'', ''_temp_key''], rows = []\<rparr>"

text \<open>A table with the columns of the sample and no row.\<close>

definition empty_table :: table where
  "empty_table = \<lparr>columns = [''designation'', ''reference'', ''quantite'', ''prix''], rows = []\<rparr>"

text \<open>
  A column with an integer, the float \<open>NaN\<close>, two texts that read \<open>nan\<close> and the
  float 1.0; and a column with the three other null values.
\<close>

definition missing_table :: table where
  "missing_table =
     \<lparr>columns = [''q''],
      rows = [[''q'' \<mapsto> Number 10], [''q'' \<mapsto> NaN], [''q'' \<mapsto> Text ''nan''],
              [''q'' \<mapsto> Text '' nan ''], [''q'' \<mapsto> Object ''1.0'']]\<rparr>"

definition null_table :: table where
  "null_table =
     \<lparr>columns = [''q''],
      rows = [[''q'' \<mapsto> PyNone], [''q'' \<mapsto> NaT], [''q'' \<mapsto> NA]]\<rparr>"

text \<open>A table with a name that is \<open>None\<close> and a reference that is \<open>NaT\<close>.\<close>

definition null_run_table :: table where
  "null_run_table =
     \<lparr>columns = [''name'', ''ref''],
      rows =
        [[''name'' \<mapsto> PyNone, ''ref'' \<mapsto> Text ''B1''],
         [''name'' \<mapsto> Text ''bolt'', ''ref'' \<mapsto> NaT]]\<rparr>"

text \<open>
  The four references of the examples of the o-to-0 correction, and two more: one of
  letters only, one where the three positions all occur.
\<close>

definition letter_o_table :: table where
  "letter_o_table =
     \<lparr>columns = [''name'', ''ref''],
      rows =
        [[''name'' \<mapsto> Text ''bolt'', ''ref'' \<mapsto> Text ''1o2''],
         [''name'' \<mapsto> Text ''nut'', ''ref'' \<mapsto> Text ''o45''],
         [''name'' \<mapsto> Text ''screw'', ''ref'' \<mapsto> Text ''45o''],
         [''name'' \<mapsto> Text ''nail'', ''ref'' \<mapsto> Text ''abc'']]\<rparr>"

definition letter_o_table2 :: table where
  "letter_o_table2 =
     \<lparr>columns = [''ref''],
      rows = [[''ref'' \<mapsto> Text ''oOo''], [''ref'' \<mapsto> Text '' o1O2o '']]\<rparr>"

text \<open>
  Values that a second cleaning changes: \<open>a\<close>, blank, code point 1, blank, \<open>b\<close>; the
  word \<open>nan\<close> between blanks; code point 1, blank, \<open>a\<close>. And values that it keeps: a
  tabulator and runs of blanks around letters and digits, the float \<open>NaN\<close>, an
  integer, and code point 1 between two letters.
\<close>

definition twice_table :: table where
  "twice_table =
     \<lparr>columns = [''q''],
      rows = [[''q'' \<mapsto> Text [CHR ''a'', CHR '' '', CHR 0x01, CHR '' '', CHR ''b'']],
              [''q'' \<mapsto> Text '' nan ''],
              [''q'' \<mapsto> Text [CHR 0x01, CHR '' '', CHR ''a'']]]\<rparr>"

definition once_table :: table where
  "once_table =
     \<lparr>columns = [''q''],
      rows = [[''q'' \<mapsto> Text [CHR 0x09, CHR ''F'', CHR ''o'', CHR '' '', CHR '' '', CHR ''1'',
                            CHR ''o'', CHR ''2'', CHR '' '']],
              [''q'' \<mapsto> NaN],
              [''q'' \<mapsto> Number 10],
              [''q'' \<mapsto> Text [CHR ''a'', CHR 0x01, CHR ''b'']]]\<rparr>"

section \<open>Lemmas: the substitutions of the reference column\<close>

lemma length_re_sub_at [simp]: "length (re_sub_at m rep s) = length s"
  by (simp add: re_sub_at_def)

lemma nth_re_sub_at: "i < length s \<Longrightarrow> re_sub_at m rep s ! i = (if m s i then rep else s ! i)"
  by (simp add: re_sub_at_def)

lemma is_digit_zero [simp]: "is_digit CHR ''0''"
  by (simp add: is_digit_def)

lemma oO_not_digit: "is_oO c \<Longrightarrow> \<not> is_digit c"
  by (auto simp: is_oO_def is_digit_def)

lemma zero_not_oO [simp]: "\<not> is_oO CHR ''0''"
  by (simp add: is_oO_def)

lemma newline_not_digit [simp]: "\<not> is_digit CHR 0x0A"
  by (simp add: is_digit_def)

lemma newline_not_oO [simp]: "\<not> is_oO CHR 0x0A"
  by (simp add: is_oO_def)

lemma match_start_sub_between: "match_start (sub_between s) i = match_start s i"
  unfolding match_start_def sub_between_def
  by (auto simp: nth_re_sub_at match_between_def dest: oO_not_digit)

lemma match_end_sub_start_between:
  "match_end (sub_start (sub_between s)) i = match_end s i"
  unfolding match_end_def sub_between_def sub_start_def
  by (auto simp: nth_re_sub_at match_between_def match_start_def dest: oO_not_digit)

lemma subs_eq: "sub_end (sub_start (sub_between s)) = re_sub_at o_position CHR ''0'' s"
proof (rule nth_equalityI)
  show "length (sub_end (sub_start (sub_between s))) = length (re_sub_at o_position CHR ''0'' s)"
    by (simp add: sub_end_def sub_start_def sub_between_def)
next
  fix i assume "i < length (sub_end (sub_start (sub_between s)))"
  then have i: "i < length s" by (simp add: sub_end_def sub_start_def sub_between_def)
  have "sub_end (sub_start (sub_between s)) ! i =
     (if match_end (sub_start (sub_between s)) i then CHR ''0''
      else if match_start (sub_between s) i then CHR ''0''
      else if match_between s i then CHR ''0'' else s ! i)"
    using i unfolding sub_end_def sub_start_def sub_between_def by (simp add: nth_re_sub_at)
  then show "sub_end (sub_start (sub_between s)) ! i = re_sub_at o_position CHR ''0'' s ! i"
    using i by (simp add: match_start_sub_between match_end_sub_start_between nth_re_sub_at o_position_def)
qed

lemma o_position_neighbour:
  assumes "i < length s" "j < length s" "is_oO (s ! i)" "j = i + 1 \<or> i = j + 1"
  shows "\<not> o_position s j"
  using assms unfolding o_position_def match_between_def match_start_def match_end_def
  by (auto dest: oO_not_digit)

lemma o_position_oO: "o_position s i \<Longrightarrow> i < length s \<and> is_oO (s ! i)"
  unfolding o_position_def match_between_def match_start_def match_end_def by auto

lemma nth_sub_o_neighbour:
  assumes "i < length s" "j < length s" "is_oO (s ! i)" "j = i + 1 \<or> i = j + 1"
  shows "re_sub_at o_position CHR ''0'' s ! j = s ! j"
  using assms o_position_neighbour [OF assms] by (simp add: nth_re_sub_at)

lemma nth_sub_o_oO:
  assumes "i < length s" "is_oO (re_sub_at o_position CHR ''0'' s ! i)"
  shows "is_oO (s ! i) \<and> \<not> o_position s i \<and> re_sub_at o_position CHR ''0'' s ! i = s ! i"
  using assms by (auto simp: nth_re_sub_at split: if_splits)

lemma o_position_fixed:
  assumes "i < length s"
  shows "\<not> o_position (re_sub_at o_position CHR ''0'' s) i"
proof
  let ?t = "re_sub_at o_position CHR ''0'' s"
  assume p: "o_position ?t i"
  then have "is_oO (?t ! i)" by (simp add: o_position_oO)
  then have o: "is_oO (s ! i)" and n: "\<not> o_position s i" and e: "?t ! i = s ! i"
    using nth_sub_o_oO [OF assms] by simp_all
  have prev: "0 < i \<Longrightarrow> ?t ! (i - 1) = s ! (i - 1)"
    using nth_sub_o_neighbour [of i s "i - 1"] assms o by simp
  have nxt: "i + 1 < length s \<Longrightarrow> ?t ! (i + 1) = s ! (i + 1)"
    using nth_sub_o_neighbour [of i s "i + 1"] assms o by simp
  have "o_position s i"
    using p prev nxt e assms
    unfolding o_position_def match_between_def match_start_def match_end_def
    by (elim disjE conjE) simp_all
  with n show False by simp
qed

lemma re_sub_o_idem:
  "re_sub_at o_position CHR ''0'' (re_sub_at o_position CHR ''0'' s) = re_sub_at o_position CHR ''0'' s"
  by (rule nth_equalityI) (simp_all add: nth_re_sub_at o_position_fixed)

lemma fix_o_eq: "fix_o s = re_sub_at o_position CHR ''0'' s"
proof (cases "contains_digit s")
  case True
  then show ?thesis by (simp add: fix_o_def subs_eq)
next
  case False
  then have "\<not> o_position s i" for i
    unfolding o_position_def match_between_def match_start_def match_end_def contains_digit_def
    by (metis add_lessD1 less_imp_diff_less nth_mem)
  then have "re_sub_at o_position CHR ''0'' s = s"
    by (simp add: re_sub_at_def map_nth)
  with False show ?thesis by (simp add: fix_o_def)
qed

lemma fix_o_idem: "fix_o (fix_o s) = fix_o s"
  by (simp add: fix_o_eq re_sub_o_idem)

section \<open>Lemmas: trimming and collapsing\<close>

lemma strip_trimmed_id:
  assumes "trimmed s"
  shows "strip s = s"
proof (cases "s = []")
  case True
  then show ?thesis by (simp add: strip_def)
next
  case False
  with assms have h: "\<not> is_space (hd s)" and l: "\<not> is_space (last s)"
    by (simp_all add: trimmed_def)
  from h have "dropWhile is_space s = s" by (simp add: dropWhile_eq_self_iff)
  moreover from l False have "dropWhile is_space (rev s) = rev s"
    by (simp add: dropWhile_eq_self_iff hd_rev)
  ultimately show ?thesis by (simp add: strip_def)
qed

lemma set_strip: "set (strip s) \<subseteq> set s"
  by (auto simp: strip_def dest!: set_dropWhileD)

lemma last_dropWhile_rev:
  assumes "dropWhile P (rev xs) \<noteq> []"
  shows "last (dropWhile P (rev xs)) = hd xs"
proof -
  have "rev xs = takeWhile P (rev xs) @ dropWhile P (rev xs)" by simp
  then have "last (rev xs) = last (dropWhile P (rev xs))"
    using assms by (metis last_appendR)
  moreover have "xs \<noteq> []" using assms by auto
  ultimately show ?thesis by (simp add: last_rev)
qed

lemma trimmed_strip: "trimmed (strip s)"
proof (cases "strip s = []")
  case True
  then show ?thesis by (simp add: trimmed_def)
next
  case False
  let ?d = "dropWhile is_space s"
  from False have ne: "dropWhile is_space (rev ?d) \<noteq> []" by (simp add: strip_def)
  then have d: "?d \<noteq> []" by (metis dropWhile.simps(1) rev_is_Nil_conv)
  have "last (strip s) = hd (dropWhile is_space (rev ?d))"
    using ne by (simp add: strip_def last_rev)
  then have l: "\<not> is_space (last (strip s))" using ne hd_dropWhile by metis
  have "hd (strip s) = last (dropWhile is_space (rev ?d))"
    using ne by (simp add: strip_def hd_rev)
  also have "\<dots> = hd ?d" using ne by (rule last_dropWhile_rev)
  finally have "\<not> is_space (hd (strip s))" using d hd_dropWhile by metis
  with l show ?thesis by (simp add: trimmed_def)
qed

lemma is_space_blank [simp]: "is_space CHR '' ''"
  by (simp add: is_space_def)

lemma collapse_ws_Nil_iff [simp]: "collapse_ws s = [] \<longleftrightarrow> s = []"
  by (cases s) auto

lemma hd_collapse_ws: "\<not> is_space (hd s) \<Longrightarrow> hd (collapse_ws s) = hd s"
  by (cases s) auto

lemma dropWhile_collapse_ws:
  "s = [] \<or> \<not> is_space (hd s) \<Longrightarrow> dropWhile is_space (collapse_ws s) = collapse_ws s"
  by (cases s) auto

lemma collapse_ws_idem: "collapse_ws (collapse_ws s) = collapse_ws s"
proof (induction s rule: collapse_ws.induct)
  case 1
  show ?case by simp
next
  case (2 c cs)
  show ?case
  proof (cases "is_space c")
    case True
    let ?r = "dropWhile is_space cs"
    have "?r = [] \<or> \<not> is_space (hd ?r)" using hd_dropWhile by blast
    then have "dropWhile is_space (collapse_ws ?r) = collapse_ws ?r"
      by (rule dropWhile_collapse_ws)
    with True 2 show ?thesis by simp
  next
    case False
    with 2 show ?thesis by simp
  qed
qed

lemma set_collapse_ws: "set (collapse_ws s) \<subseteq> insert CHR '' '' {c \<in> set s. \<not> is_space c}"
proof (induction s rule: collapse_ws.induct)
  case 1
  show ?case by simp
next
  case (2 c cs)
  have "set (dropWhile is_space cs) \<subseteq> set cs" using set_dropWhileD by fastforce
  with 2 show ?case by auto
qed

lemma last_collapse_ws:
  "s \<noteq> [] \<Longrightarrow> \<not> is_space (last s) \<Longrightarrow> last (collapse_ws s) = last s"
proof (induction s rule: collapse_ws.induct)
  case 1
  then show ?case by simp
next
  case (2 c cs)
  show ?case
  proof (cases "is_space c")
    case True
    let ?r = "dropWhile is_space cs"
    from 2(3,4) True have cs: "cs \<noteq> []" by auto
    have "\<not> is_space (last cs)" using 2(3,4) cs by simp
    then have r: "?r \<noteq> []" using cs
      by (metis dropWhile_eq_Nil_conv last_in_set)
    have "cs = takeWhile is_space cs @ ?r" by simp
    then have lr: "last ?r = last cs" using r by (metis last_appendR)
    have "last (collapse_ws ?r) = last ?r"
      using 2(1) [OF True r] lr \<open>\<not> is_space (last cs)\<close> by simp
    moreover have "collapse_ws ?r \<noteq> []" using r by (simp only: collapse_ws_Nil_iff not_False_eq_True)
    moreover have "collapse_ws (c # cs) = CHR '' '' # collapse_ws ?r" using True by simp
    ultimately show ?thesis using lr cs by (metis last_ConsR)
  next
    case False
    show ?thesis
    proof (cases "cs = []")
      case True
      with False show ?thesis by simp
    next
      case ne: False
      then have "last (collapse_ws cs) = last cs" using 2(2) False 2(4) by simp
      with False ne show ?thesis by simp
    qed
  qed
qed

lemma trimmed_collapse_ws: "trimmed s \<Longrightarrow> trimmed (collapse_ws s)"
  by (auto simp: trimmed_def hd_collapse_ws last_collapse_ws)

lemma blank_not_control [simp]: "\<not> is_control CHR '' ''"
  by (simp add: is_control_def)

lemma remove_control_id: "(\<forall>c \<in> set s. \<not> is_control c) \<Longrightarrow> remove_control s = s"
  by (simp add: remove_control_def)

lemma plain_collapse_strip:
  assumes "plain s" "c \<in> set (collapse_ws (strip s))"
  shows "\<not> is_control c"
proof -
  from assms(2) set_collapse_ws [of "strip s"]
  have "c = CHR '' '' \<or> (c \<in> set (strip s) \<and> \<not> is_space c)" by blast
  then show ?thesis
  proof
    assume "c = CHR '' ''"
    then show ?thesis by simp
  next
    assume "c \<in> set (strip s) \<and> \<not> is_space c"
    then have "c \<in> set s" "\<not> is_space c" using set_strip [of s] by blast+
    with assms(1) show ?thesis by (auto simp: plain_def)
  qed
qed

lemma clean_name_text_plain:
  assumes "plain s"
  shows "clean_name_text s = collapse_ws (strip s)"
proof -
  have "\<forall>c \<in> set (collapse_ws (strip s)). \<not> is_control c"
    using plain_collapse_strip [OF assms] by blast
  then show ?thesis by (simp add: clean_name_text_def remove_control_id)
qed

lemma clean_name_text_fixed:
  assumes "trimmed s" "\<forall>c \<in> set s. \<not> is_control c" "collapse_ws s = s"
  shows "clean_name_text s = s"
  using assms by (simp add: clean_name_text_def strip_trimmed_id remove_control_id)

lemma clean_name_idem:
  assumes "plain s"
  shows "clean_name_text (clean_name_text s) = clean_name_text s"
proof -
  let ?u = "collapse_ws (strip s)"
  have u: "clean_name_text s = ?u" using assms by (rule clean_name_text_plain)
  have "\<forall>c \<in> set ?u. \<not> is_control c"
    using plain_collapse_strip [OF assms] by blast
  moreover have "trimmed ?u" by (simp add: trimmed_collapse_ws trimmed_strip)
  ultimately have "clean_name_text ?u = ?u"
    by (intro clean_name_text_fixed) (simp_all add: collapse_ws_idem)
  with u show ?thesis by simp
qed

section \<open>Lemmas: cleaning a reference\<close>

lemma set_remove_control: "c \<in> set (remove_control s) \<Longrightarrow> \<not> is_control c"
  by (simp add: remove_control_def)

lemma newline_control [simp]: "is_control CHR 0x0A"
  by (simp add: is_control_def)

lemma o_position_spec:
  assumes "\<forall>c \<in> set s. \<not> is_control c" "i < length s"
  shows "o_position s i = spec_fix_o_position s i"
proof -
  have "s ! j \<noteq> CHR 0x0A" if "j < length s" for j
    using assms(1) that newline_control by (metis nth_mem)
  then show ?thesis
    using assms(2)
    unfolding o_position_def spec_fix_o_position_def match_between_def match_start_def match_end_def
    by auto
qed

lemma fix_o_spec:
  assumes "\<forall>c \<in> set s. \<not> is_control c"
  shows "fix_o s = spec_fix_o s"
proof (cases "contains_digit s")
  case True
  have "re_sub_at o_position CHR ''0'' s
      = map (\<lambda>i. if spec_fix_o_position s i then CHR ''0'' else s ! i) [0..<length s]"
    unfolding re_sub_at_def using assms by (simp add: o_position_spec)
  with True show ?thesis by (simp add: fix_o_eq spec_fix_o_def)
next
  case False
  then show ?thesis by (simp add: fix_o_def spec_fix_o_def)
qed

lemma trimmed_remove_control:
  assumes "plain s" "trimmed s"
  shows "trimmed (remove_control s)"
proof (cases "s = []")
  case True
  then show ?thesis by (simp add: remove_control_def trimmed_def)
next
  case False
  with assms(2) have h: "\<not> is_space (hd s)" and l: "\<not> is_space (last s)"
    by (simp_all add: trimmed_def)
  from False assms(1) h have hc: "\<not> is_control (hd s)" by (auto simp: plain_def)
  from False assms(1) l have lc: "\<not> is_control (last s)" by (auto simp: plain_def)
  obtain a s' where s: "s = a # s'" using False by (cases s) auto
  obtain s'' b where s2: "s = s'' @ [b]" using False by (metis append_butlast_last_id)
  have "hd (remove_control s) = hd s" using s hc by (simp add: remove_control_def)
  moreover have "last (remove_control s) = last s" using s2 lc by (simp add: remove_control_def)
  ultimately show ?thesis using h l by (simp add: trimmed_def)
qed

lemma zero_not_space [simp]: "\<not> is_space CHR ''0''"
  by (simp add: is_space_def)

lemma zero_not_control [simp]: "\<not> is_control CHR ''0''"
  by (simp add: is_control_def)

lemma set_fix_o: "set (fix_o s) \<subseteq> insert CHR ''0'' (set s)"
  by (auto simp: fix_o_eq re_sub_at_def)

lemma trimmed_fix_o:
  assumes "trimmed s"
  shows "trimmed (fix_o s)"
proof (cases "s = []")
  case True
  then show ?thesis by (simp add: fix_o_eq re_sub_at_def trimmed_def)
next
  case False
  then have n: "0 < length s" by simp
  have len: "length (fix_o s) = length s" by (simp add: fix_o_eq)
  from assms False have h: "\<not> is_space (s ! 0)" and l: "\<not> is_space (s ! (length s - 1))"
    by (simp_all add: trimmed_def hd_conv_nth last_conv_nth)
  have "\<not> is_space (fix_o s ! 0)" using h n by (simp add: fix_o_eq nth_re_sub_at)
  moreover have "\<not> is_space (fix_o s ! (length s - 1))" using l n by (simp add: fix_o_eq nth_re_sub_at)
  moreover have "fix_o s \<noteq> []" using len False by auto
  ultimately show ?thesis using len by (simp add: trimmed_def hd_conv_nth last_conv_nth)
qed

lemma clean_ref_text_fixed:
  assumes "trimmed s" "\<forall>c \<in> set s. \<not> is_control c"
  shows "clean_ref_text s = fix_o s"
  using assms by (simp add: clean_ref_text_def strip_trimmed_id remove_control_id)

lemma plain_strip: "plain s \<Longrightarrow> plain (strip s)"
  using set_strip [of s] by (auto simp: plain_def)

lemma clean_ref_idem:
  assumes "plain s"
  shows "clean_ref_text (clean_ref_text s) = clean_ref_text s"
proof -
  let ?u = "remove_control (strip s)"
  have t: "trimmed ?u" using assms by (simp add: trimmed_remove_control plain_strip trimmed_strip)
  have "\<forall>c \<in> set (fix_o ?u). \<not> is_control c"
    using set_fix_o [of ?u] set_remove_control by fastforce
  moreover have "trimmed (fix_o ?u)" using t by (rule trimmed_fix_o)
  ultimately have "clean_ref_text (fix_o ?u) = fix_o (fix_o ?u)" by (intro clean_ref_text_fixed)
  then show ?thesis by (simp add: clean_ref_text_def fix_o_idem)
qed

section \<open>Lemmas: the column operations, row by row\<close>

lemma map_zip_same: "map (\<lambda>(x, y). h x y) (zip xs (map g xs)) = map (\<lambda>x. h x (g x)) xs"
  by (induction xs) auto

lemma set_col_get_col: "set_col t c (map f (get_col t c)) = map_col c (\<lambda>row. f (cell_of row c)) t"
  by (simp add: set_col_def get_col_def map_col_def map_zip_same)

lemma map_col_map_col:
  "map_col c g (map_col c f t) = map_col c (\<lambda>row. g (row(c \<mapsto> f row))) t"
  by (simp add: map_col_def comp_def)

lemma cell_of_upd_same [simp]: "cell_of (row(c \<mapsto> v)) c = v"
  by (simp add: cell_of_def)

lemma cell_of_upd_other [simp]: "c \<noteq> c' \<Longrightarrow> cell_of (row(c' \<mapsto> v)) c = cell_of row c"
  by (simp add: cell_of_def)

lemma name_steps:
  "str_apply remove_control (str_apply collapse_ws (str_apply strip
      (replace_value ''nan'' [] (astype_str v)))) = name_cell v"
  by (simp add: name_cell_def astype_str_def replace_value_def nan_to_empty_def clean_name_text_def)

lemma clean_names_map_col: "clean_names c t = map_col c (\<lambda>row. name_cell (cell_of row c)) t"
  by (simp add: clean_names_def Let_def set_col_get_col map_col_map_col name_steps)

lemma loc_apply_same: "loc_apply (map p vs) f vs = map (\<lambda>v. if p v then f v else v) vs"
  by (induction vs) (simp_all add: loc_apply_def)

lemma ref_steps:
  "(let v3 = str_apply remove_control (str_apply strip (replace_value ''nan'' [] (astype_str v)))
    in if str_contains_digit v3
       then str_apply sub_end (str_apply sub_start (str_apply sub_between v3)) else v3)
   = ref_cell v"
  by (simp add: ref_cell_def astype_str_def replace_value_def nan_to_empty_def clean_ref_text_def
        fix_o_def)

lemma clean_refs_map_col: "clean_refs c t = map_col c (\<lambda>row. ref_cell (cell_of row c)) t"
proof -
  have "clean_refs c t =
    map_col c (\<lambda>row.
      let v3 = str_apply remove_control (str_apply strip (replace_value ''nan'' [] (astype_str (cell_of row c))))
      in if str_contains_digit v3
         then str_apply sub_end (str_apply sub_start (str_apply sub_between v3)) else v3) t"
    by (simp add: clean_refs_def Let_def set_col_get_col map_col_map_col loc_apply_same
          cong: if_cong)
  then show ?thesis by (simp only: ref_steps)
qed

lemma map_zip_two: "map (\<lambda>(x, y). h x y) (zip (map f xs) (map g xs)) = map (\<lambda>x. h (f x) (g x)) xs"
  by (induction xs) auto

lemma add_temp_key_map_col:
  "add_temp_key n r t = map_col ''_temp_key'' (\<lambda>row. str_concat (cell_of row n) ''|'' (cell_of row r)) t"
  by (simp add: add_temp_key_def set_col_def get_col_def map_col_def map_zip_two map_zip_same)

lemma columns_map_col_present [simp]: "c \<in> set (columns t) \<Longrightarrow> columns (map_col c f t) = columns t"
  by (simp add: map_col_def)

lemma rows_map_col [simp]: "rows (map_col c f t) = map (\<lambda>row. row(c \<mapsto> f row)) (rows t)"
  by (simp add: map_col_def)

lemma cleaned_steps:
  assumes "n \<in> set (columns t)" "r \<in> set (columns t)"
  shows "add_temp_key n r (clean_refs r (clean_names n t)) = cleaned_table t n r"
  using assms
  by (simp add: add_temp_key_map_col clean_refs_map_col clean_names_map_col map_col_def
        cleaned_table_def keyed_row_def normalized_row_def temp_key_def Let_def)

lemma cell_of_keyed_row [simp]: "cell_of (keyed_row n r row) ''_temp_key'' = temp_key n r row"
  by (simp add: keyed_row_def)

lemma duplicated_keys:
  "duplicated (get_col (cleaned_table t n r) ''_temp_key'') = map (is_duplicate t n r) (rows t)"
  by (simp add: duplicated_def get_col_def cleaned_table_def is_duplicate_def comp_def)

lemma filter_zip_map_fst:
  "map (\<lambda>x. g (fst x)) (filter snd (zip (map f xs) (map p xs))) = map (\<lambda>x. g (f x)) (filter p xs)"
  by (induction xs) auto

lemma unique_steps:
  "drop_col (bool_index (cleaned_table t n r)
       (map Not (duplicated (get_col (cleaned_table t n r) ''_temp_key''))))  ''_temp_key''
   = unique_table t n r"
  unfolding duplicated_keys
  using filter_zip_map_fst [where g = "\<lambda>row. row(''_temp_key'' := None)" and f = "keyed_row n r"
      and p = "\<lambda>row. \<not> is_duplicate t n r row" and xs = "rows t"]
  by (simp add: drop_col_def bool_index_def unique_table_def output_row_def
        cleaned_table_def comp_def)

lemma duplicate_steps:
  "drop_col (bool_index (cleaned_table t n r)
       (duplicated (get_col (cleaned_table t n r) ''_temp_key''))) ''_temp_key''
   = duplicate_table t n r"
  unfolding duplicated_keys
  using filter_zip_map_fst [where g = "\<lambda>row. row(''_temp_key'' := None)" and f = "keyed_row n r"
      and p = "is_duplicate t n r" and xs = "rows t"]
  by (simp add: drop_col_def bool_index_def duplicate_table_def output_row_def
        cleaned_table_def comp_def)

lemma names_changed_steps:
  "count_changed (map astype_str (get_col t n)) (get_col (clean_names n t) n) = names_changed_count t n"
  by (simp add: names_changed_count_def clean_names_map_col get_col_def comp_def)

lemma refs_changed_steps:
  "count_changed (map astype_str (get_col (clean_names n t) r))
      (get_col (clean_refs r (clean_names n t)) r) = refs_changed_count t n r"
  by (simp add: refs_changed_count_def clean_names_map_col clean_refs_map_col get_col_def comp_def
        Let_def)

lemma clean_inventory_data_run:
  assumes "n \<in> set (columns (st ! df))" "r \<in> set (columns (st ! df))"
  shows "clean_inventory_data srt st df n r =
     (let t = st ! df;
          st' = st @ [cleaned_table t n r, unique_table t n r, duplicate_table t n r]
      in case report srt (names_changed_count t n) (refs_changed_count t n r)
                (unique_table t n r) (duplicate_table t n r) n r of
           Inl e \<Rightarrow> (Inl e, st')
         | Inr w \<Rightarrow> (Inr (length st + 1, length st + 2, w), st'))"
proof -
  let ?t = "st ! df"
  have 1: "(st @ [?t]) ! length st = ?t" by simp
  show ?thesis
    unfolding clean_inventory_data_def df_new_def Let_def
    using assms
    by (simp add: nth_append names_changed_steps refs_changed_steps cleaned_steps
          unique_steps duplicate_steps split: sum.splits)
qed

section \<open>Lemmas: the run of \<open>clean_inventory_data\<close>\<close>

lemma columns_unique_table [simp]: "columns (unique_table t n r) = removeAll ''_temp_key'' (columns t)"
  by (simp add: unique_table_def)

lemma columns_duplicate_table [simp]: "columns (duplicate_table t n r) = removeAll ''_temp_key'' (columns t)"
  by (simp add: duplicate_table_def)

lemma rows_unique_table:
  "rows (unique_table t n r) = map (output_row n r) (filter (\<lambda>row. \<not> is_duplicate t n r row) (rows t))"
  by (simp add: unique_table_def)

lemma rows_duplicate_table:
  "rows (duplicate_table t n r) = map (output_row n r) (filter (is_duplicate t n r) (rows t))"
  by (simp add: duplicate_table_def)

lemma report_KeyError_name:
  "n \<notin> set (columns u) \<Longrightarrow> report srt nc rc u d n r = Inl (KeyError n)"
  by (simp add: report_def Let_def)

lemma report_KeyError_ref:
  "n \<in> set (columns u) \<Longrightarrow> r \<notin> set (columns u) \<Longrightarrow> report srt nc rc u d n r = Inl (KeyError r)"
  by (simp add: report_def Let_def)

lemma report_Inr:
  "n \<in> set (columns u) \<Longrightarrow> r \<in> set (columns u) \<Longrightarrow> \<exists>w. report srt nc rc u d n r = Inr w"
  by (simp add: report_def Let_def)

lemma report_Inr_columns:
  "report srt nc rc u d n r = Inr w \<Longrightarrow> n \<in> set (columns u) \<and> r \<in> set (columns u)"
  by (auto simp: report_def Let_def split: if_splits)

lemma clean_inventory_data_Inr:
  assumes "clean_inventory_data srt st df n r = (Inr (u, d, w), st')"
  shows "n \<in> set (columns (st ! df))" and "r \<in> set (columns (st ! df))"
    and "n \<noteq> ''_temp_key''" and "r \<noteq> ''_temp_key''"
    and "u = length st + 1" and "d = length st + 2"
    and "st' = st @ [cleaned_table (st ! df) n r, unique_table (st ! df) n r,
                      duplicate_table (st ! df) n r]"
    and "st' ! u = unique_table (st ! df) n r" and "st' ! d = duplicate_table (st ! df) n r"
    and "report srt (names_changed_count (st ! df) n) (refs_changed_count (st ! df) n r)
            (unique_table (st ! df) n r) (duplicate_table (st ! df) n r) n r = Inr w"
proof -
  let ?t = "st ! df"
  show n: "n \<in> set (columns ?t)" and r: "r \<in> set (columns ?t)"
    using assms by (auto simp: clean_inventory_data_def split: if_splits)
  let ?rep = "report srt (names_changed_count ?t n) (refs_changed_count ?t n r)
            (unique_table ?t n r) (duplicate_table ?t n r) n r"
  from assms clean_inventory_data_run [OF n r]
  have all: "?rep = Inr w \<and> u = length st + 1 \<and> d = length st + 2
    \<and> st' = st @ [cleaned_table ?t n r, unique_table ?t n r, duplicate_table ?t n r]"
    by (cases ?rep) (simp_all add: Let_def)
  from all show rep: "?rep = Inr w" by (rule conjunct1)
  from all show u: "u = length st + 1" by simp
  from all show d: "d = length st + 2" by simp
  from all show st': "st' = st @ [cleaned_table ?t n r, unique_table ?t n r, duplicate_table ?t n r]"
    by simp
  from report_Inr_columns [OF rep] show "n \<noteq> ''_temp_key''" "r \<noteq> ''_temp_key''" by auto
  show "st' ! u = unique_table ?t n r" "st' ! d = duplicate_table ?t n r"
    using u d st' by (simp_all add: nth_append)
qed

lemma clean_inventory_data_succeeds:
  assumes "n \<in> set (columns (st ! df))" "r \<in> set (columns (st ! df))"
    "n \<noteq> ''_temp_key''" "r \<noteq> ''_temp_key''"
  shows "\<exists>w. clean_inventory_data srt st df n r =
           (Inr (length st + 1, length st + 2, w),
            st @ [cleaned_table (st ! df) n r, unique_table (st ! df) n r,
                  duplicate_table (st ! df) n r])"
proof -
  let ?t = "st ! df"
  have "n \<in> set (columns (unique_table ?t n r))" "r \<in> set (columns (unique_table ?t n r))"
    using assms by simp_all
  then obtain w where "report srt (names_changed_count ?t n) (refs_changed_count ?t n r)
            (unique_table ?t n r) (duplicate_table ?t n r) n r = Inr w"
    using report_Inr by blast
  then show ?thesis using clean_inventory_data_run [OF assms(1,2)] by (simp add: Let_def)
qed

lemma clean_inventory_data_KeyError:
  assumes "n \<in> set (columns (st ! df))" "r \<in> set (columns (st ! df))"
    "n = ''_temp_key'' \<or> r = ''_temp_key''"
  shows "fst (clean_inventory_data srt st df n r) = Inl (KeyError ''_temp_key'')"
proof (cases "n = ''_temp_key''")
  case True
  then have "n \<notin> set (columns (unique_table (st ! df) n r))" by simp
  then show ?thesis
    using clean_inventory_data_run [OF assms(1,2)] True by (simp add: Let_def report_KeyError_name)
next
  case False
  with assms have r: "r = ''_temp_key''" and "n \<in> set (columns (unique_table (st ! df) n r))" by simp_all
  moreover have "r \<notin> set (columns (unique_table (st ! df) n r))" using r by simp
  ultimately show ?thesis
    using clean_inventory_data_run [OF assms(1,2)] by (simp add: Let_def report_KeyError_ref)
qed

lemma snd_clean_inventory_data:
  "snd (clean_inventory_data srt st df n r) = st \<or>
   snd (clean_inventory_data srt st df n r)
     = st @ [cleaned_table (st ! df) n r, unique_table (st ! df) n r, duplicate_table (st ! df) n r]"
proof (cases "n \<in> set (columns (st ! df)) \<and> r \<in> set (columns (st ! df))")
  case True
  then show ?thesis
    using clean_inventory_data_run [of n st df r srt] by (simp add: Let_def split: sum.splits)
next
  case False
  then show ?thesis by (auto simp: clean_inventory_data_def)
qed

lemma output_row_eq: "output_row n r row = (normalized_row n r row)(''_temp_key'' := None)"
  by (simp add: output_row_def keyed_row_def)

lemma cell_of_drop_other [simp]: "c \<noteq> k \<Longrightarrow> cell_of (row(k := None)) c = cell_of row c"
  by (simp add: cell_of_def)

lemma temp_key_output_row:
  assumes "n \<noteq> ''_temp_key''" "r \<noteq> ''_temp_key''"
  shows "temp_key n r row = str_concat (cell_of (output_row n r row) n) ''|'' (cell_of (output_row n r row) r)"
  using assms by (simp add: temp_key_def output_row_eq)

lemma is_duplicate_output_row:
  assumes "n \<noteq> ''_temp_key''" "r \<noteq> ''_temp_key''" "output_row n r x = output_row n r y"
  shows "is_duplicate t n r x = is_duplicate t n r y"
  using assms by (simp add: is_duplicate_def temp_key_output_row)

lemma get_col_clean_names: "get_col (clean_names c t) c = map name_cell (get_col t c)"
  by (simp add: clean_names_map_col get_col_def comp_def)

lemma get_col_clean_refs: "get_col (clean_refs c t) c = map ref_cell (get_col t c)"
  by (simp add: clean_refs_map_col get_col_def comp_def)

lemma clean_name_text_Nil [simp]: "clean_name_text [] = []"
  by (simp add: clean_name_text_def strip_def remove_control_def)

lemma clean_ref_text_Nil [simp]: "clean_ref_text [] = []"
  by (simp add: clean_ref_text_def strip_def remove_control_def fix_o_def contains_digit_def)

lemma length_get_col [simp]: "length (get_col t c) = length (rows t)"
  by (simp add: get_col_def)

section \<open>Lemmas: the sorting function\<close>

lemma stable_sort_values_sorts: "sorts_descending stable_sort_values"
  by (simp add: sorts_descending_def stable_sort_values_def)

lemma sorts_descending_set: "sorts_descending srt \<Longrightarrow> set (srt gs) = set gs"
  unfolding sorts_descending_def by (metis mset_eq_setD)

lemma sorts_descending_length: "sorts_descending srt \<Longrightarrow> length (srt gs) = length gs"
  unfolding sorts_descending_def by (metis mset_eq_length)

lemma sorts_descending_distinct: "sorts_descending srt \<Longrightarrow> distinct (srt gs) = distinct gs"
  unfolding sorts_descending_def by (metis mset_eq_imp_distinct_iff)

lemma sorts_descending_sorted:
  "sorts_descending srt \<Longrightarrow> sorted (map (\<lambda>(k, c). - int c) (srt gs))"
  unfolding sorts_descending_def by blast

lemma sorts_descending_single: "sorts_descending srt \<Longrightarrow> srt [g] = [g]"
  unfolding sorts_descending_def by (metis mset_single_iff_right mset.simps(1) mset.simps(2) add_mset_eq_single mset_zero_iff)

section \<open>Lemmas: the examples, evaluated\<close>

lemma sample_name_A: "name_cell (Text ''Produit A'') = Text ''Produit A''" by code_simp
lemma sample_ref_1: "ref_cell (Text ''REF001'') = Text ''REF001''" by code_simp
lemma sample_name_B: "name_cell (Text ''Produit B'') = Text ''Produit B''" by code_simp
lemma sample_ref_2: "ref_cell (Text ''REF002'') = Text ''REF002''" by code_simp
lemma sample_name_C: "name_cell (Text ''Produit C'') = Text ''Produit C''" by code_simp
lemma sample_ref_3: "ref_cell (Text ''REF003'') = Text ''REF003''" by code_simp

lemmas sample_eval = sample_name_A sample_ref_1 sample_name_B sample_ref_2 sample_name_C sample_ref_3

lemma sample_keys:
  "map (temp_key ''designation'' ''reference'') (rows sample_table) =
     [Text ''Produit A|REF001'', Text ''Produit B|REF002'', Text ''Produit A|REF001'',
      Text ''Produit C|REF003'']"
  by (simp add: sample_table_def temp_key_def normalized_row_def Let_def sample_eval)

lemma sample_columns:
  "columns sample_table = [''designation'', ''reference'', ''quantite'', ''prix'']"
  by (simp add: sample_table_def)

lemma sample_report_any:
  assumes "sorts_descending srt"
  shows "report srt (names_changed_count sample_table ''designation'')
      (refs_changed_count sample_table ''designation'' ''reference'')
      (unique_table sample_table ''designation'' ''reference'')
      (duplicate_table sample_table ''designation'' ''reference'') ''designation'' ''reference''
   = Inr [msg_duplicate_groups 1, msg_top_header, msg_top_duplicate ''Produit A'' ''REF001'' 2]"
  by (simp add: report_def names_changed_count_def refs_changed_count_def unique_table_def
        duplicate_table_def is_duplicate_def sample_keys output_row_def keyed_row_def
        normalized_row_def get_col_def cell_of_def count_changed_def astype_str_def py_str_def
        is_empty_cell_def isna_def group_sizes_def top_duplicates_def
        sorts_descending_single [OF assms]
        Let_def sample_eval sample_table_def temp_key_def)
     (simp add: numeral_2_eq_2)

lemma sample_run_any:
  assumes "sorts_descending srt"
  shows "clean_inventory_data srt [sample_table] 0 ''designation'' ''reference'' =
     (Inr (2, 3, [msg_duplicate_groups 1, msg_top_header, msg_top_duplicate ''Produit A'' ''REF001'' 2]),
      [sample_table, cleaned_table sample_table ''designation'' ''reference'',
       unique_table sample_table ''designation'' ''reference'',
       duplicate_table sample_table ''designation'' ''reference''])"
  using clean_inventory_data_run [of "''designation''" "[sample_table]" 0 "''reference''" srt]
  by (simp add: sample_columns sample_report_any [OF assms] Let_def)

lemma sample_run:
  "clean_inventory_data stable_sort_values [sample_table] 0 ''designation'' ''reference'' =
     (Inr (2, 3, [msg_duplicate_groups 1, msg_top_header, msg_top_duplicate ''Produit A'' ''REF001'' 2]),
      [sample_table, cleaned_table sample_table ''designation'' ''reference'',
       unique_table sample_table ''designation'' ''reference'',
       duplicate_table sample_table ''designation'' ''reference''])"
  by (rule sample_run_any [OF stable_sort_values_sorts])

lemma sample_unique_cols:
  "get_col (unique_table sample_table ''designation'' ''reference'') ''designation''
     = [Text ''Produit B'', Text ''Produit C'']
   \<and> get_col (unique_table sample_table ''designation'' ''reference'') ''reference''
     = [Text ''REF002'', Text ''REF003'']
   \<and> get_col (unique_table sample_table ''designation'' ''reference'') ''quantite''
     = [Number 20, Number 30]"
  by (simp add: unique_table_def is_duplicate_def sample_keys output_row_def keyed_row_def
        normalized_row_def get_col_def cell_of_def Let_def sample_eval sample_table_def temp_key_def)

lemma sample_duplicate_cols:
  "get_col (duplicate_table sample_table ''designation'' ''reference'') ''designation''
     = [Text ''Produit A'', Text ''Produit A'']
   \<and> get_col (duplicate_table sample_table ''designation'' ''reference'') ''reference''
     = [Text ''REF001'', Text ''REF001'']
   \<and> get_col (duplicate_table sample_table ''designation'' ''reference'') ''quantite''
     = [Number 10, Number 15]"
  by (simp add: duplicate_table_def is_duplicate_def sample_keys output_row_def keyed_row_def
        normalized_row_def get_col_def cell_of_def Let_def sample_eval sample_table_def temp_key_def)

lemma clean_name_10: "clean_name_text ''10'' = ''10''" by code_simp
lemma clean_ref_10: "clean_ref_text ''10'' = ''10''" by code_simp
lemma clean_name_nan_blanks: "clean_name_text '' nan '' = ''nan''" by code_simp
lemma clean_ref_nan_blanks: "clean_ref_text '' nan '' = ''nan''" by code_simp

section \<open>Lemmas: the report\<close>

lemma output_row_other:
  assumes "c \<noteq> n" "c \<noteq> r" "c \<noteq> ''_temp_key''"
  shows "output_row n r row c = row c"
  using assms by (simp add: output_row_eq normalized_row_def Let_def)

lemma report_no_rows:
  assumes "n \<in> set (columns u)" "r \<in> set (columns u)" "rows u = []" "rows d = []"
  shows "report srt 0 0 u d n r = Inr []"
  using assms by (simp add: report_def Let_def get_col_def)

lemma group_sizes_eq:
  "group_sizes t n r
     = map (\<lambda>k. (k, count_list (key_pairs t n r) k)) (sort (remdups (key_pairs t n r)))"
  by (simp add: group_sizes_def key_pairs_def get_col_def map_zip_two Let_def)

lemma group_sizes_keys: "map fst (group_sizes t n r) = sort (remdups (key_pairs t n r))"
  by (simp add: group_sizes_eq comp_def)

lemma group_sizes_distinct: "distinct (map fst (group_sizes t n r))"
  by (simp add: group_sizes_keys)

lemma group_sizes_set: "set (map fst (group_sizes t n r)) = set (key_pairs t n r)"
  by (simp add: group_sizes_keys)

lemma group_sizes_length: "length (group_sizes t n r) = card (set (key_pairs t n r))"
proof -
  have "length (group_sizes t n r) = length (remdups (key_pairs t n r))"
    by (simp add: group_sizes_eq)
  then show ?thesis by (simp add: length_remdups_card_conv)
qed

lemma group_sizes_count:
  "(k, c) \<in> set (group_sizes t n r) \<Longrightarrow> c = count_list (key_pairs t n r) k"
  by (auto simp: group_sizes_eq)

lemma top_duplicates_length:
  "sorts_descending srt \<Longrightarrow> length (top_duplicates srt gs) = min 5 (length gs)"
  by (simp add: top_duplicates_def min.commute sorts_descending_length)

lemma top_duplicates_subset:
  assumes "sorts_descending srt"
  shows "set (top_duplicates srt gs) \<subseteq> set gs"
proof -
  have "set (take 5 (srt gs)) \<subseteq> set (srt gs)"
    by (rule set_take_subset)
  then show ?thesis using assms by (simp add: top_duplicates_def sorts_descending_set)
qed

lemma top_duplicates_distinct:
  "sorts_descending srt \<Longrightarrow> distinct gs \<Longrightarrow> distinct (top_duplicates srt gs)"
  by (simp add: top_duplicates_def sorts_descending_distinct)

lemma top_duplicates_sorted:
  assumes "sorts_descending srt"
  shows "sorted (map (\<lambda>(k, c). - int c) (top_duplicates srt gs))"
proof -
  have "sorted (map (\<lambda>(k, c). - int c) (srt gs))"
    using assms by (rule sorts_descending_sorted)
  then have "sorted (take 5 (map (\<lambda>(k, c). - int c) (srt gs)))"
    by (rule sorted_wrt_take)
  then show ?thesis by (simp add: top_duplicates_def take_map)
qed

lemma top_duplicates_descending:
  assumes "sorts_descending srt" "i \<le> j" "j < length (top_duplicates srt gs)"
  shows "snd (top_duplicates srt gs ! j) \<le> snd (top_duplicates srt gs ! i)"
proof -
  let ?f = "\<lambda>(k, c). - int c :: int"
  let ?top = "top_duplicates srt gs"
  from top_duplicates_sorted [OF assms(1), of gs] assms(2,3)
  have "map ?f ?top ! i \<le> map ?f ?top ! j"
    by (simp add: sorted_iff_nth_mono del: nth_map)
  then have "?f (?top ! i) \<le> ?f (?top ! j)" using assms(2,3) by simp
  then show ?thesis by (simp add: case_prod_unfold)
qed

lemma top_duplicates_largest:
  assumes "sorts_descending srt"
    and "x \<in> set gs - set (top_duplicates srt gs)" "y \<in> set (top_duplicates srt gs)"
  shows "snd x \<le> snd y"
proof -
  let ?f = "\<lambda>(k, c). - int c :: int"
  let ?s = "srt gs"
  have s: "?s = take 5 ?s @ drop 5 ?s" by simp
  have "set ?s = set gs" using assms(1) by (rule sorts_descending_set)
  then have "x \<in> set (take 5 ?s) \<union> set (drop 5 ?s)"
    using assms(2) s by (metis DiffD1 set_append)
  then have x: "x \<in> set (drop 5 ?s)" using assms(2) by (simp add: top_duplicates_def)
  have y: "y \<in> set (take 5 ?s)" using assms(3) by (simp add: top_duplicates_def)
  have "sorted (map ?f ?s)" using assms(1) by (rule sorts_descending_sorted)
  then have "sorted (map ?f (take 5 ?s) @ map ?f (drop 5 ?s))"
    by (metis s map_append)
  then have "\<forall>a \<in> set (map ?f (take 5 ?s)). \<forall>b \<in> set (map ?f (drop 5 ?s)). a \<le> b"
    by (simp add: sorted_append)
  then have ab: "a \<le> b"
    if "a \<in> set (map ?f (take 5 ?s))" "b \<in> set (map ?f (drop 5 ?s))" for a b
    using that by blast
  have fy: "?f y \<in> set (map ?f (take 5 ?s))" using y by (metis imageI set_map)
  have fx: "?f x \<in> set (map ?f (drop 5 ?s))" using x by (metis imageI set_map)
  have "?f y \<le> ?f x" using fy fx by (rule ab)
  then show ?thesis by (simp add: case_prod_unfold)
qed

lemma report_value:
  assumes "n \<in> set (columns u)" "r \<in> set (columns u)"
  shows "report srt nc rc u d n r =
     Inr ((if 0 < nc then [msg_names_cleaned nc] else []) @ (if 0 < rc then [msg_refs_corrected rc] else [])
          @ (if 0 < length (filter is_empty_cell (get_col u n))
             then [msg_empty_names (length (filter is_empty_cell (get_col u n)))] else [])
          @ (if 0 < length (filter is_empty_cell (get_col u r))
             then [msg_empty_refs (length (filter is_empty_cell (get_col u r)))] else [])
          @ (if rows d = [] then []
             else [msg_duplicate_groups (length (group_sizes d n r)), msg_top_header]
                  @ map (\<lambda>((a, b), c). msg_top_duplicate a b c) (top_duplicates srt (group_sizes d n r))))"
  using assms by (simp add: report_def Let_def)

section \<open>Lemmas: the other examples, evaluated\<close>

lemma sample_groups:
  "group_sizes (duplicate_table sample_table ''designation'' ''reference'') ''designation'' ''reference''
     = [((''Produit A'', ''REF001''), 2)]"
  by (simp add: group_sizes_def sample_duplicate_cols py_str_def)

lemma temp_key_table_columns: "columns temp_key_table = [''name'', ''ref'', ''_temp_key'']"
  by (simp add: temp_key_table_def)

lemma bolt_name: "name_cell (Text ''bolt'') = Text ''bolt''" by code_simp
lemma bolt_ref: "ref_cell (Text ''B1'') = Text ''B1''" by code_simp

lemma temp_key_table_report:
  "report srt (names_changed_count temp_key_table ''name'')
      (refs_changed_count temp_key_table ''name'' ''ref'')
      (unique_table temp_key_table ''name'' ''ref'')
      (duplicate_table temp_key_table ''name'' ''ref'') ''name'' ''ref'' = Inr []"
  by (simp add: report_def names_changed_count_def refs_changed_count_def unique_table_def
        duplicate_table_def is_duplicate_def output_row_def keyed_row_def
        normalized_row_def get_col_def cell_of_def count_changed_def astype_str_def py_str_def
        is_empty_cell_def isna_def Let_def bolt_name bolt_ref temp_key_table_def temp_key_def)

lemma temp_key_table_run:
  "clean_inventory_data srt [temp_key_table] 0 ''name'' ''ref'' =
     (Inr (2, 3, []),
      [temp_key_table, cleaned_table temp_key_table ''name'' ''ref'',
       unique_table temp_key_table ''name'' ''ref'', duplicate_table temp_key_table ''name'' ''ref''])"
  using clean_inventory_data_run [of "''name''" "[temp_key_table]" 0 "''ref''" srt]
  by (simp add: temp_key_table_columns temp_key_table_report Let_def)

lemma empty_table_columns:
  "columns empty_table = [''designation'', ''reference'', ''quantite'', ''prix'']"
  by (simp add: empty_table_def)

lemma empty_temp_key_table_columns:
  "columns empty_temp_key_table = [''name'', ''ref'', ''_temp_key'']"
  by (simp add: empty_temp_key_table_def)

lemma collision_cells:
  "name_cell (Text ''a|b'') = Text ''a|b''" "name_cell (Text ''a'') = Text ''a''"
  "ref_cell (Text ''c'') = Text ''c''" "ref_cell (Text ''b|c'') = Text ''b|c''"
  by code_simp+

lemma collision_columns: "columns collision_table = [''name'', ''ref'']"
  by (simp add: collision_table_def)

lemma collision_keys:
  "map (temp_key ''name'' ''ref'') (rows collision_table) = [Text ''a|b|c'', Text ''a|b|c'']"
  by (simp add: collision_table_def temp_key_def normalized_row_def Let_def collision_cells)

lemma collision_groups:
  "group_sizes (duplicate_table collision_table ''name'' ''ref'') ''name'' ''ref''
     = [((''a'', ''b|c''), 1), ((''a|b'', ''c''), 1)]"
  by (simp add: duplicate_table_def is_duplicate_def collision_keys output_row_def keyed_row_def
        normalized_row_def get_col_def cell_of_def py_str_def group_sizes_def Let_def
        collision_cells collision_table_def temp_key_def)

lemma collision_report:
  "report srt (names_changed_count collision_table ''name'')
      (refs_changed_count collision_table ''name'' ''ref'')
      (unique_table collision_table ''name'' ''ref'')
      (duplicate_table collision_table ''name'' ''ref'') ''name'' ''ref''
   = Inr ([msg_duplicate_groups 2, msg_top_header]
          @ map (\<lambda>((a, b), c). msg_top_duplicate a b c)
              (take 5 (srt [((''a'', ''b|c''), 1), ((''a|b'', ''c''), 1)])))"
  by (simp add: report_def names_changed_count_def refs_changed_count_def unique_table_def
        duplicate_table_def is_duplicate_def collision_keys output_row_def keyed_row_def
        normalized_row_def get_col_def cell_of_def count_changed_def astype_str_def py_str_def
        is_empty_cell_def isna_def group_sizes_def top_duplicates_def Let_def collision_cells
        collision_table_def temp_key_def)
     (simp add: numeral_2_eq_2)

lemma collision_run:
  "clean_inventory_data srt [collision_table] 0 ''name'' ''ref'' =
     (Inr (2, 3, [msg_duplicate_groups 2, msg_top_header]
                 @ map (\<lambda>((a, b), c). msg_top_duplicate a b c)
                     (take 5 (srt [((''a'', ''b|c''), 1), ((''a|b'', ''c''), 1)]))),
      [collision_table, cleaned_table collision_table ''name'' ''ref'',
       unique_table collision_table ''name'' ''ref'', duplicate_table collision_table ''name'' ''ref''])"
  using clean_inventory_data_run [of "''name''" "[collision_table]" 0 "''ref''" srt]
  by (simp add: collision_columns collision_report Let_def)

section \<open>Lemmas: duplicates and keys\<close>

lemma count_list_nth_gt1:
  assumes "i < length xs"
  shows "1 < count_list xs (xs ! i) \<longleftrightarrow> (\<exists>j < length xs. j \<noteq> i \<and> xs ! j = xs ! i)"
proof -
  let ?x = "xs ! i"
  have split: "xs = take i xs @ ?x # drop (Suc i) xs" using assms by (rule id_take_nth_drop)
  have "count_list xs ?x = count_list (take i xs) ?x + 1 + count_list (drop (Suc i) xs) ?x"
    by (subst split) simp
  then have "1 < count_list xs ?x \<longleftrightarrow> ?x \<in> set (take i xs) \<or> ?x \<in> set (drop (Suc i) xs)"
    using count_list_0_iff [of "take i xs" ?x] count_list_0_iff [of "drop (Suc i) xs" ?x] by arith
  also have "\<dots> \<longleftrightarrow> (\<exists>j < length xs. j \<noteq> i \<and> xs ! j = ?x)"
  proof
    assume "?x \<in> set (take i xs) \<or> ?x \<in> set (drop (Suc i) xs)"
    then show "\<exists>j < length xs. j \<noteq> i \<and> xs ! j = ?x"
    proof
      assume "?x \<in> set (take i xs)"
      then obtain j where "j < length (take i xs)" "take i xs ! j = ?x"
        by (auto simp: in_set_conv_nth)
      then have "j < length xs \<and> j \<noteq> i \<and> xs ! j = ?x" using assms by simp
      then show ?thesis by blast
    next
      assume "?x \<in> set (drop (Suc i) xs)"
      then obtain j where "j < length (drop (Suc i) xs)" "drop (Suc i) xs ! j = ?x"
        by (auto simp: in_set_conv_nth)
      then have "Suc i + j < length xs \<and> Suc i + j \<noteq> i \<and> xs ! (Suc i + j) = ?x"
        using assms by simp
      then show ?thesis by blast
    qed
  next
    assume "\<exists>j < length xs. j \<noteq> i \<and> xs ! j = ?x"
    then obtain j where j: "j < length xs" "j \<noteq> i" "xs ! j = ?x" by blast
    show "?x \<in> set (take i xs) \<or> ?x \<in> set (drop (Suc i) xs)"
    proof (cases "j < i")
      case True
      then have "take i xs ! j = ?x" "j < length (take i xs)" using j assms by simp_all
      then have "?x \<in> set (take i xs)" by (metis nth_mem)
      then show ?thesis by simp
    next
      case False
      with j have gt: "i < j" by simp
      then have "drop (Suc i) xs ! (j - Suc i) = ?x" "j - Suc i < length (drop (Suc i) xs)"
        using j assms by simp_all
      then have "?x \<in> set (drop (Suc i) xs)" by (metis nth_mem)
      then show ?thesis by simp
    qed
  qed
  finally show ?thesis .
qed

lemma normalized_cells_text:
  "\<exists>a b. cell_of (normalized_row n r row) n = Text a \<and> cell_of (normalized_row n r row) r = Text b"
  by (cases "n = r") (simp_all add: normalized_row_def Let_def name_cell_def ref_cell_def)

lemma temp_key_text:
  "temp_key n r row = Text (fst (normalized_pair n r row) @ ''|'' @ snd (normalized_pair n r row))"
proof -
  from normalized_cells_text [of n r row] obtain a b where
    "cell_of (normalized_row n r row) n = Text a" "cell_of (normalized_row n r row) r = Text b"
    by blast
  then show ?thesis by (simp add: temp_key_def normalized_pair_def py_str_def)
qed

lemma sep_split_unique:
  assumes "x \<notin> set a" "x \<notin> set a'" "a @ x # b = a' @ x # b'"
  shows "a = a' \<and> b = b'"
proof -
  have "takeWhile (\<lambda>c. c \<noteq> x) (a @ x # b) = a"
    using assms(1) by (subst takeWhile_append2) auto
  moreover have "takeWhile (\<lambda>c. c \<noteq> x) (a' @ x # b') = a'"
    using assms(2) by (subst takeWhile_append2) auto
  ultimately have "a = a'" using assms(3) by simp
  with assms(3) show ?thesis by simp
qed

lemma key_eq_pair_eq:
  assumes "CHR ''|'' \<notin> set a \<and> CHR ''|'' \<notin> set a' \<or> CHR ''|'' \<notin> set b \<and> CHR ''|'' \<notin> set b'"
  shows "a @ ''|'' @ b = a' @ ''|'' @ b' \<longleftrightarrow> a = a' \<and> b = b'"
proof
  assume e: "a @ ''|'' @ b = a' @ ''|'' @ b'"
  from assms show "a = a' \<and> b = b'"
  proof
    assume "CHR ''|'' \<notin> set a \<and> CHR ''|'' \<notin> set a'"
    then show ?thesis using e sep_split_unique [of "CHR ''|''" a a' b b'] by simp
  next
    assume h: "CHR ''|'' \<notin> set b \<and> CHR ''|'' \<notin> set b'"
    from e have "rev (a @ ''|'' @ b) = rev (a' @ ''|'' @ b')" by simp
    then have "rev b @ CHR ''|'' # rev a = rev b' @ CHR ''|'' # rev a'" by simp
    then have "rev b = rev b' \<and> rev a = rev a'"
      using h sep_split_unique [of "CHR ''|''" "rev b" "rev b'" "rev a" "rev a'"] by simp
    then show ?thesis by simp
  qed
qed simp

lemma in_duplicate_table_iff:
  assumes "n \<noteq> ''_temp_key''" "r \<noteq> ''_temp_key''" "row \<in> set (rows t)"
  shows "output_row n r row \<in> set (rows (duplicate_table t n r)) \<longleftrightarrow> is_duplicate t n r row"
proof
  assume "output_row n r row \<in> set (rows (duplicate_table t n r))"
  then obtain x where "is_duplicate t n r x" "output_row n r x = output_row n r row"
    by (auto simp: rows_duplicate_table)
  then show "is_duplicate t n r row" using is_duplicate_output_row [OF assms(1,2)] by blast
next
  assume "is_duplicate t n r row"
  then show "output_row n r row \<in> set (rows (duplicate_table t n r))"
    using assms(3) by (simp add: rows_duplicate_table)
qed

lemma in_unique_table_iff:
  assumes "n \<noteq> ''_temp_key''" "r \<noteq> ''_temp_key''" "row \<in> set (rows t)"
  shows "output_row n r row \<in> set (rows (unique_table t n r)) \<longleftrightarrow> \<not> is_duplicate t n r row"
proof
  assume "output_row n r row \<in> set (rows (unique_table t n r))"
  then obtain x where "\<not> is_duplicate t n r x" "output_row n r x = output_row n r row"
    by (auto simp: rows_unique_table)
  then show "\<not> is_duplicate t n r row" using is_duplicate_output_row [OF assms(1,2)] by blast
next
  assume "\<not> is_duplicate t n r row"
  then show "output_row n r row \<in> set (rows (unique_table t n r))"
    using assms(3) by (simp add: rows_unique_table)
qed

lemma is_duplicate_nth:
  assumes "i < length (rows t)"
  shows "is_duplicate t n r (rows t ! i) \<longleftrightarrow>
         (\<exists>j < length (rows t). j \<noteq> i \<and> temp_key n r (rows t ! j) = temp_key n r (rows t ! i))"
  using count_list_nth_gt1 [of i "map (temp_key n r) (rows t)"] assms
  by (simp add: is_duplicate_def cong: conj_cong)

lemma normalized_pair_output_row:
  assumes "n \<noteq> ''_temp_key''" "r \<noteq> ''_temp_key''"
  shows "normalized_pair n r row
       = (py_str (cell_of (output_row n r row) n), py_str (cell_of (output_row n r row) r))"
  using assms by (simp add: normalized_pair_def output_row_eq)

lemma sample_pairs:
  "map (normalized_pair ''designation'' ''reference'') (rows sample_table)
     = [(''Produit A'', ''REF001''), (''Produit B'', ''REF002''), (''Produit A'', ''REF001''),
        (''Produit C'', ''REF003'')]"
  by (simp add: sample_table_def normalized_pair_def normalized_row_def Let_def cell_of_def
        py_str_def sample_eval)

lemma sample_length: "length (rows sample_table) = 4"
  by (simp add: sample_table_def)

lemma sample_pair_nth:
  "j < 4 \<Longrightarrow> normalized_pair ''designation'' ''reference'' (rows sample_table ! j)
     = [(''Produit A'', ''REF001''), (''Produit B'', ''REF002''), (''Produit A'', ''REF001''),
        (''Produit C'', ''REF003'')] ! j"
  using nth_map [of j "rows sample_table" "normalized_pair ''designation'' ''reference''"]
  by (simp add: sample_pairs sample_length)

section \<open>Lemmas: the fixed points of the cleaning\<close>

lemma length_collapse_ws: "length (collapse_ws s) \<le> length s"
proof (induction s rule: collapse_ws.induct)
  case 1
  then show ?case by simp
next
  case (2 c cs)
  show ?case
  proof (cases "is_space c")
    case True
    with 2 have "length (collapse_ws (dropWhile is_space cs)) \<le> length (dropWhile is_space cs)"
      by simp
    also have "\<dots> \<le> length cs" by (rule length_dropWhile_le)
    finally show ?thesis using True by simp
  next
    case False
    with 2 show ?thesis by simp
  qed
qed

lemma dropWhile_length_eq:
  assumes "length (dropWhile P xs) = length xs"
  shows "dropWhile P xs = xs"
proof -
  have "length (takeWhile P xs) + length (dropWhile P xs) = length xs"
    by (metis length_append takeWhile_dropWhile_id)
  with assms have "takeWhile P xs = []" by simp
  then show ?thesis by (metis append_Nil takeWhile_dropWhile_id)
qed

lemma length_strip: "length (strip s) \<le> length s"
proof -
  have "length (dropWhile is_space (rev (dropWhile is_space s))) \<le> length (rev (dropWhile is_space s))"
    by (rule length_dropWhile_le)
  also have "\<dots> \<le> length s" by (simp add: length_dropWhile_le)
  finally show ?thesis by (simp add: strip_def)
qed

lemma strip_length_eq:
  assumes "length (strip s) = length s"
  shows "strip s = s"
proof -
  let ?d = "dropWhile is_space s"
  have 1: "length (dropWhile is_space (rev ?d)) \<le> length (rev ?d)" by (rule length_dropWhile_le)
  have 2: "length ?d \<le> length s" by (rule length_dropWhile_le)
  from assms have 3: "length (dropWhile is_space (rev ?d)) = length s" by (simp add: strip_def)
  from 1 2 3 have "length ?d = length s" by simp
  then have d: "?d = s" by (rule dropWhile_length_eq)
  with 3 have "length (dropWhile is_space (rev s)) = length (rev s)" by simp
  then have "dropWhile is_space (rev s) = rev s" by (rule dropWhile_length_eq)
  with d show ?thesis by (simp add: strip_def)
qed

lemma filter_length_eq:
  assumes "length (filter P xs) = length xs"
  shows "filter P xs = xs"
  using assms
proof (induction xs)
  case Nil
  then show ?case by simp
next
  case (Cons x xs)
  have le: "length (filter P xs) \<le> length xs" by (rule length_filter_le)
  show ?case
  proof (cases "P x")
    case True
    with Cons show ?thesis by simp
  next
    case False
    with Cons.prems le show ?thesis by simp
  qed
qed

lemma collapse_ws_fixed_iff: "collapse_ws s = s \<longleftrightarrow> single_blanks s"
proof (induction s)
  case Nil
  then show ?case by simp
next
  case (Cons c cs)
  show ?case
  proof (cases "is_space c")
    case False
    with Cons show ?thesis by simp
  next
    case True
    show ?thesis
    proof (cases "cs = [] \<or> \<not> is_space (hd cs)")
      case True
      then have "dropWhile is_space cs = cs" by (auto simp: dropWhile_eq_self_iff)
      with Cons \<open>is_space c\<close> True show ?thesis by auto
    next
      case False
      then have "cs \<noteq> []" "is_space (hd cs)" by simp_all
      then obtain d ds where cs: "cs = d # ds" "is_space d" by (cases cs) auto
      have "length (collapse_ws (dropWhile is_space cs)) \<le> length (dropWhile is_space cs)"
        by (rule length_collapse_ws)
      also have "\<dots> = length (dropWhile is_space ds)" using cs by simp
      also have "\<dots> \<le> length ds" by (rule length_dropWhile_le)
      also have "\<dots> < length cs" using cs by simp
      finally have "collapse_ws (dropWhile is_space cs) \<noteq> cs" by auto
      with \<open>is_space c\<close> False show ?thesis by simp
    qed
  qed
qed

lemma length_remove_control: "length (remove_control s) \<le> length s"
  by (simp add: remove_control_def)

lemma length_fix_o [simp]: "length (fix_o s) = length s"
  by (simp add: fix_o_eq)

lemma clean_name_text_fixedD:
  assumes "clean_name_text y = y"
  shows "trimmed y" and "single_blanks y" and "\<forall>c \<in> set y. \<not> is_control c"
proof -
  from assms have e: "remove_control (collapse_ws (strip y)) = y" by (simp add: clean_name_text_def)
  show "\<forall>c \<in> set y. \<not> is_control c" using set_remove_control e by metis
  have 1: "length (remove_control (collapse_ws (strip y))) \<le> length (collapse_ws (strip y))"
    by (rule length_remove_control)
  have 2: "length (collapse_ws (strip y)) \<le> length (strip y)" by (rule length_collapse_ws)
  have 3: "length (strip y) \<le> length y" by (rule length_strip)
  from e 1 2 3 have "length (strip y) = length y" by simp
  then have s: "strip y = y" by (rule strip_length_eq)
  then show "trimmed y" using trimmed_strip [of y] by simp
  from e s 1 2 have "length (filter (\<lambda>c. \<not> is_control c) (collapse_ws y)) = length (collapse_ws y)"
    by (simp add: remove_control_def)
  then have "remove_control (collapse_ws y) = collapse_ws y"
    unfolding remove_control_def by (rule filter_length_eq)
  with e s have "collapse_ws y = y" by simp
  then show "single_blanks y" by (simp add: collapse_ws_fixed_iff)
qed

lemma clean_name_text_fixed_iff:
  assumes "\<forall>c \<in> set y. \<not> is_control c"
  shows "clean_name_text y = y \<longleftrightarrow> trimmed y \<and> single_blanks y"
  using assms clean_name_text_fixedD [of y] clean_name_text_fixed [of y]
  by (auto simp: collapse_ws_fixed_iff)

lemma clean_ref_text_fixedD:
  assumes "clean_ref_text y = y"
  shows "trimmed y"
proof -
  from assms have e: "fix_o (remove_control (strip y)) = y" by (simp add: clean_ref_text_def)
  then have "length (remove_control (strip y)) = length y" by (metis length_fix_o)
  moreover have "length (remove_control (strip y)) \<le> length (strip y)" by (rule length_remove_control)
  moreover have "length (strip y) \<le> length y" by (rule length_strip)
  ultimately have "length (strip y) = length y" by simp
  then have "strip y = y" by (rule strip_length_eq)
  then show ?thesis using trimmed_strip [of y] by simp
qed

lemma clean_ref_text_fixed_iff:
  assumes "\<forall>c \<in> set y. \<not> is_control c" "fix_o y = y"
  shows "clean_ref_text y = y \<longleftrightarrow> trimmed y"
  using assms clean_ref_text_fixedD [of y] clean_ref_text_fixed [of y] by auto

lemma clean_name_text_no_control: "\<forall>c \<in> set (clean_name_text s). \<not> is_control c"
  using set_remove_control by (auto simp: clean_name_text_def)

lemma clean_ref_text_no_control: "\<forall>c \<in> set (clean_ref_text s). \<not> is_control c"
  using set_fix_o [of "remove_control (strip s)"] set_remove_control
  by (fastforce simp: clean_ref_text_def)

lemma fix_o_clean_ref_text: "fix_o (clean_ref_text s) = clean_ref_text s"
  by (simp add: clean_ref_text_def fix_o_idem)

lemma name_cell_Text_nan: "name_cell (Text ''nan'') = Text []"
  by (simp add: name_cell_def nan_to_empty_def py_str_def)

lemma ref_cell_Text_nan: "ref_cell (Text ''nan'') = Text []"
  by (simp add: ref_cell_def nan_to_empty_def py_str_def)

lemma name_cell_twice:
  "name_cell (name_cell v) = name_cell v \<longleftrightarrow>
     py_str (name_cell v) \<noteq> ''nan'' \<and> trimmed (py_str (name_cell v))
     \<and> single_blanks (py_str (name_cell v))"
proof -
  let ?y = "clean_name_text (nan_to_empty (py_str v))"
  have v: "name_cell v = Text ?y" by (simp add: name_cell_def)
  have p: "py_str (Text ?y) = ?y" by (simp add: py_str_def)
  show ?thesis
  proof (cases "?y = ''nan''")
    case True
    then show ?thesis unfolding v p by (simp add: name_cell_Text_nan)
  next
    case False
    then have "name_cell (Text ?y) = Text (clean_name_text ?y)"
      by (simp add: name_cell_def nan_to_empty_def py_str_def)
    then show ?thesis
      unfolding v p using False clean_name_text_fixed_iff [OF clean_name_text_no_control, of "nan_to_empty (py_str v)"]
      by simp
  qed
qed

lemma ref_cell_twice:
  "ref_cell (ref_cell v) = ref_cell v \<longleftrightarrow>
     py_str (ref_cell v) \<noteq> ''nan'' \<and> trimmed (py_str (ref_cell v))"
proof -
  let ?y = "clean_ref_text (nan_to_empty (py_str v))"
  have v: "ref_cell v = Text ?y" by (simp add: ref_cell_def)
  have p: "py_str (Text ?y) = ?y" by (simp add: py_str_def)
  show ?thesis
  proof (cases "?y = ''nan''")
    case True
    then show ?thesis unfolding v p by (simp add: ref_cell_Text_nan)
  next
    case False
    then have "ref_cell (Text ?y) = Text (clean_ref_text ?y)"
      by (simp add: ref_cell_def nan_to_empty_def py_str_def)
    then show ?thesis
      unfolding v p
      using False clean_ref_text_fixed_iff [OF clean_ref_text_no_control fix_o_clean_ref_text,
          of "nan_to_empty (py_str v)"]
      by simp
  qed
qed

lemma plain_nan_to_empty: "plain s \<Longrightarrow> plain (nan_to_empty s)"
  by (simp add: nan_to_empty_def plain_def)

lemma name_cell_plain:
  assumes "plain (py_str v)"
  shows "trimmed (py_str (name_cell v))" and "single_blanks (py_str (name_cell v))"
proof -
  let ?x = "nan_to_empty (py_str v)"
  have "clean_name_text (clean_name_text ?x) = clean_name_text ?x"
    using assms by (intro clean_name_idem plain_nan_to_empty)
  from clean_name_text_fixedD(1,2) [OF this]
  show "trimmed (py_str (name_cell v))" and "single_blanks (py_str (name_cell v))"
    by (simp_all add: name_cell_def py_str_def)
qed

lemma ref_cell_plain:
  assumes "plain (py_str v)"
  shows "trimmed (py_str (ref_cell v))"
proof -
  let ?x = "nan_to_empty (py_str v)"
  have "clean_ref_text (clean_ref_text ?x) = clean_ref_text ?x"
    using assms by (intro clean_ref_idem plain_nan_to_empty)
  from clean_ref_text_fixedD [OF this]
  show ?thesis by (simp add: ref_cell_def py_str_def)
qed

lemma map_col_twice:
  "map_col c (\<lambda>row. f (cell_of row c)) (map_col c (\<lambda>row. f (cell_of row c)) t)
     = map_col c (\<lambda>row. f (cell_of row c)) t
   \<longleftrightarrow> (\<forall>v \<in> set (get_col t c). f (f v) = f v)"
proof -
  have "(row(c \<mapsto> f (cell_of row c), c \<mapsto> f (f (cell_of row c))) = row(c \<mapsto> f (cell_of row c)))
      = (f (f (cell_of row c)) = f (cell_of row c))" for row :: row
    by (metis cell_of_upd_same fun_upd_upd)
  then show ?thesis
    by (simp add: map_col_def get_col_def cong: map_cong)
qed

lemma clean_names_twice:
  "clean_names c (clean_names c t) = clean_names c t
     \<longleftrightarrow> (\<forall>v \<in> set (get_col t c). name_cell (name_cell v) = name_cell v)"
  unfolding clean_names_map_col by (rule map_col_twice)

lemma clean_refs_twice:
  "clean_refs c (clean_refs c t) = clean_refs c t
     \<longleftrightarrow> (\<forall>v \<in> set (get_col t c). ref_cell (ref_cell v) = ref_cell v)"
  unfolding clean_refs_map_col by (rule map_col_twice)

section \<open>The claims\<close>

text \<open>
  When \<open>clean_inventory_data\<close> returns, a row of the input is in \<open>duplicate_df\<close>
  if and only if another row of the input has the same key, the text made of its cleaned
  name, the separator \<open>|\<close> and its cleaned reference; it is in \<open>unique_df\<close> if and
  only if it is not in \<open>duplicate_df\<close>. When the separator occurs in no cleaned name
  of the table, or in no cleaned reference of the table, two rows have the same key
  exactly when they have the same pair of cleaned name and cleaned reference.
\<close>

lemma duplicates_by_key:
  assumes "clean_inventory_data srt st df n r = (Inr (u, d, w), st')"
    and "i < length (rows (st ! df))"
  shows
    "(output_row n r (rows (st ! df) ! i) \<in> set (rows (st' ! d)) \<longleftrightarrow>
        (\<exists>j < length (rows (st ! df)). j \<noteq> i \<and>
           fst (normalized_pair n r (rows (st ! df) ! j)) @ ''|''
             @ snd (normalized_pair n r (rows (st ! df) ! j))
           = fst (normalized_pair n r (rows (st ! df) ! i)) @ ''|''
             @ snd (normalized_pair n r (rows (st ! df) ! i))))
     \<and> (output_row n r (rows (st ! df) ! i) \<in> set (rows (st' ! u)) \<longleftrightarrow>
          output_row n r (rows (st ! df) ! i) \<notin> set (rows (st' ! d)))
     \<and> normalized_pair n r (rows (st ! df) ! i)
         = (py_str (cell_of (output_row n r (rows (st ! df) ! i)) n),
            py_str (cell_of (output_row n r (rows (st ! df) ! i)) r))
     \<and> ((\<forall>row \<in> set (rows (st ! df)). CHR ''|'' \<notin> set (fst (normalized_pair n r row)))
          \<or> (\<forall>row \<in> set (rows (st ! df)). CHR ''|'' \<notin> set (snd (normalized_pair n r row)))
        \<longrightarrow> (output_row n r (rows (st ! df) ! i) \<in> set (rows (st' ! d)) \<longleftrightarrow>
              (\<exists>j < length (rows (st ! df)). j \<noteq> i \<and>
                 normalized_pair n r (rows (st ! df) ! j)
                 = normalized_pair n r (rows (st ! df) ! i))))"
proof -
  let ?t = "st ! df"
  let ?R = "rows ?t"
  let ?p = "normalized_pair n r"
  let ?key = "\<lambda>row. fst (?p row) @ ''|'' @ snd (?p row)"
  note run = clean_inventory_data_Inr [OF assms(1)]
  have n: "n \<noteq> ''_temp_key''" and r: "r \<noteq> ''_temp_key''" by (fact run(3), fact run(4))
  have mem: "?R ! i \<in> set ?R" using assms(2) by simp
  have d: "output_row n r (?R ! i) \<in> set (rows (st' ! d)) \<longleftrightarrow> is_duplicate ?t n r (?R ! i)"
    unfolding run(9) by (rule in_duplicate_table_iff [OF n r mem])
  have u: "output_row n r (?R ! i) \<in> set (rows (st' ! u)) \<longleftrightarrow> \<not> is_duplicate ?t n r (?R ! i)"
    unfolding run(8) by (rule in_unique_table_iff [OF n r mem])
  have k: "is_duplicate ?t n r (?R ! i) \<longleftrightarrow> (\<exists>j < length ?R. j \<noteq> i \<and> ?key (?R ! j) = ?key (?R ! i))"
    using is_duplicate_nth [OF assms(2), of n r] by (simp add: temp_key_text)
  have 1: "output_row n r (?R ! i) \<in> set (rows (st' ! d)) \<longleftrightarrow>
        (\<exists>j < length ?R. j \<noteq> i \<and> ?key (?R ! j) = ?key (?R ! i))"
    using d k by simp
  have 2: "output_row n r (?R ! i) \<in> set (rows (st' ! u)) \<longleftrightarrow>
        output_row n r (?R ! i) \<notin> set (rows (st' ! d))"
    using d u by simp
  have 3: "?p (?R ! i) = (py_str (cell_of (output_row n r (?R ! i)) n),
            py_str (cell_of (output_row n r (?R ! i)) r))"
    by (rule normalized_pair_output_row [OF n r])
  have 4: "output_row n r (?R ! i) \<in> set (rows (st' ! d)) \<longleftrightarrow>
        (\<exists>j < length ?R. j \<noteq> i \<and> ?p (?R ! j) = ?p (?R ! i))"
    if sep: "(\<forall>row \<in> set ?R. CHR ''|'' \<notin> set (fst (?p row)))
          \<or> (\<forall>row \<in> set ?R. CHR ''|'' \<notin> set (snd (?p row)))"
  proof -
    have "?key (?R ! j) = ?key (?R ! i) \<longleftrightarrow> ?p (?R ! j) = ?p (?R ! i)" if "j < length ?R" for j
    proof -
      from that have mj: "?R ! j \<in> set ?R" by simp
      from sep mem mj
      have "CHR ''|'' \<notin> set (fst (?p (?R ! j))) \<and> CHR ''|'' \<notin> set (fst (?p (?R ! i)))
          \<or> CHR ''|'' \<notin> set (snd (?p (?R ! j))) \<and> CHR ''|'' \<notin> set (snd (?p (?R ! i)))"
        by blast
      from key_eq_pair_eq [OF this] show ?thesis by (simp add: prod_eq_iff)
    qed
    then show ?thesis using 1 by (simp cong: conj_cong)
  qed
  from 1 2 3 4 show ?thesis by blast
qed

text \<open>
  Claim C1. A row is put in \<open>duplicate_df\<close> if and only if another row has the same
  pair of cleaned name and cleaned reference, the key being made with a separator that
  does not occur in the values. The code does not do this on the table with the
  rows (\<open>a|b\<close>, \<open>c\<close>) and (\<open>a\<close>, \<open>b|c\<close>): nothing keeps the separator of line 72
  out of the values, the two rows have different pairs and the same key \<open>a|b|c\<close>,
  and both are in \<open>duplicate_df\<close>, none in \<open>unique_df\<close>. Line 99 groups the same
  rows by the pair, so the warnings tell of two groups of duplicates, of one row each,
  whatever the sorting function does.
\<close>

theorem C1_separator_collision:
  "get_col ([collision_table] ! 0) ''name'' = [Text ''a|b'', Text ''a'']
   \<and> get_col ([collision_table] ! 0) ''ref'' = [Text ''c'', Text ''b|c'']
   \<and> map (normalized_pair ''name'' ''ref'') (rows ([collision_table] ! 0))
       = [(''a|b'', ''c''), (''a'', ''b|c'')]
   \<and> map (temp_key ''name'' ''ref'') (rows ([collision_table] ! 0))
       = [Text ''a|b|c'', Text ''a|b|c'']
   \<and> fst (clean_inventory_data srt [collision_table] 0 ''name'' ''ref'')
       = Inr (2, 3, [msg_duplicate_groups 2, msg_top_header]
                    @ map (\<lambda>((a, b), c). msg_top_duplicate a b c)
                        (take 5 (srt [((''a'', ''b|c''), 1), ((''a|b'', ''c''), 1)])))
   \<and> rows (snd (clean_inventory_data srt [collision_table] 0 ''name'' ''ref'') ! 2) = []
   \<and> get_col (snd (clean_inventory_data srt [collision_table] 0 ''name'' ''ref'') ! 3) ''name''
       = [Text ''a|b'', Text ''a'']
   \<and> get_col (snd (clean_inventory_data srt [collision_table] 0 ''name'' ''ref'') ! 3) ''ref''
       = [Text ''c'', Text ''b|c'']"
proof -
  have g: "get_col collision_table ''name'' = [Text ''a|b'', Text ''a'']"
    "get_col collision_table ''ref'' = [Text ''c'', Text ''b|c'']"
    by (simp_all add: collision_table_def get_col_def cell_of_def)
  have p: "map (normalized_pair ''name'' ''ref'') (rows collision_table)
      = [(''a|b'', ''c''), (''a'', ''b|c'')]"
    by (simp add: collision_table_def normalized_pair_def normalized_row_def Let_def cell_of_def
          py_str_def collision_cells)
  have u: "rows (unique_table collision_table ''name'' ''ref'') = []"
    by (simp add: unique_table_def is_duplicate_def collision_keys)
       (simp add: collision_table_def temp_key_def normalized_row_def Let_def collision_cells)
  have d: "get_col (duplicate_table collision_table ''name'' ''ref'') ''name'' = [Text ''a|b'', Text ''a'']"
    "get_col (duplicate_table collision_table ''name'' ''ref'') ''ref'' = [Text ''c'', Text ''b|c'']"
    by (simp_all add: duplicate_table_def is_duplicate_def collision_keys output_row_def keyed_row_def
        normalized_row_def get_col_def cell_of_def Let_def collision_cells
        collision_table_def temp_key_def)
  show ?thesis unfolding collision_run by (simp add: g p u d collision_keys)
qed

text \<open>
  Claim C2. When \<open>clean_inventory_data\<close> returns, every row of the input table, as
  cleaned, is in exactly one of \<open>unique_df\<close> and \<open>duplicate_df\<close>: the two tables
  share no row, together they hold the cleaned rows of the input, and their numbers of
  rows add up to the number of rows of the input.
\<close>

theorem C2_partition:
  assumes "clean_inventory_data srt st df n r = (Inr (u, d, w), st')"
  shows "length (rows (st' ! u)) + length (rows (st' ! d)) = length (rows (st ! df))
       \<and> set (rows (st' ! u)) \<inter> set (rows (st' ! d)) = {}
       \<and> set (rows (st' ! u)) \<union> set (rows (st' ! d)) = output_row n r ` set (rows (st ! df))
       \<and> (\<forall>row \<in> set (rows (st ! df)).
            (output_row n r row \<in> set (rows (st' ! u))) \<noteq> (output_row n r row \<in> set (rows (st' ! d))))"
proof -
  let ?t = "st ! df"
  let ?P = "is_duplicate ?t n r"
  note run = clean_inventory_data_Inr [OF assms]
  have n: "n \<noteq> ''_temp_key''" and r: "r \<noteq> ''_temp_key''" by (fact run(3), fact run(4))
  have "st' ! u = unique_table ?t n r" by (fact run(8))
  then have u: "rows (st' ! u) = map (output_row n r) (filter (\<lambda>row. \<not> ?P row) (rows ?t))"
    by (simp add: rows_unique_table)
  have "st' ! d = duplicate_table ?t n r" by (fact run(9))
  then have d: "rows (st' ! d) = map (output_row n r) (filter ?P (rows ?t))"
    by (simp add: rows_duplicate_table)
  have cong: "?P x = ?P y" if "output_row n r x = output_row n r y" for x y
    using is_duplicate_output_row [OF n r that] .
  have len: "length (rows (st' ! u)) + length (rows (st' ! d)) = length (rows ?t)"
    using sum_length_filter_compl [of ?P "rows ?t"] by (simp add: u d)
  have disj: "set (rows (st' ! u)) \<inter> set (rows (st' ! d)) = {}"
  proof (rule ccontr)
    assume "set (rows (st' ! u)) \<inter> set (rows (st' ! d)) \<noteq> {}"
    then obtain x y where "x \<in> set (rows ?t)" "\<not> ?P x" "y \<in> set (rows ?t)" "?P y"
      "output_row n r x = output_row n r y"
      unfolding u d by auto
    with cong [of x y] show False by simp
  qed
  have un: "set (rows (st' ! u)) \<union> set (rows (st' ! d)) = output_row n r ` set (rows ?t)"
    by (auto simp: u d)
  have each: "(output_row n r row \<in> set (rows (st' ! u))) \<noteq> (output_row n r row \<in> set (rows (st' ! d)))"
    if "row \<in> set (rows ?t)" for row
  proof (cases "?P row")
    case True
    then have "output_row n r row \<in> set (rows (st' ! d))" using that by (simp add: d)
    with disj show ?thesis by blast
  next
    case False
    then have "output_row n r row \<in> set (rows (st' ! u))" using that by (simp add: u)
    with disj show ?thesis by blast
  qed
  show ?thesis
  proof (intro conjI ballI)
    show "length (rows (st' ! u)) + length (rows (st' ! d)) = length (rows ?t)" by (fact len)
    show "set (rows (st' ! u)) \<inter> set (rows (st' ! d)) = {}" by (fact disj)
    show "set (rows (st' ! u)) \<union> set (rows (st' ! d)) = output_row n r ` set (rows ?t)" by (fact un)
  next
    fix row assume "row \<in> set (rows ?t)"
    then show "(output_row n r row \<in> set (rows (st' ! u))) \<noteq> (output_row n r row \<in> set (rows (st' ! d)))"
      by (rule each)
  qed
qed

text \<open>
  The theorem on the sample data of \<open>main\<close>: the rows of Produit B and Produit C
  are unique, the two rows of Produit A are duplicates, two and two of four.
\<close>

theorem C2_partition_witness:
  "clean_inventory_data stable_sort_values [sample_table] 0 ''designation'' ''reference'' =
     (Inr (2, 3, [msg_duplicate_groups 1, msg_top_header, msg_top_duplicate ''Produit A'' ''REF001'' 2]),
      [sample_table, cleaned_table sample_table ''designation'' ''reference'',
       unique_table sample_table ''designation'' ''reference'',
       duplicate_table sample_table ''designation'' ''reference''])
   \<and> length (rows (unique_table sample_table ''designation'' ''reference'')) = 2
   \<and> length (rows (duplicate_table sample_table ''designation'' ''reference'')) = 2
   \<and> length (rows sample_table) = 4
   \<and> set (rows (unique_table sample_table ''designation'' ''reference''))
       \<inter> set (rows (duplicate_table sample_table ''designation'' ''reference'')) = {}
   \<and> get_col (unique_table sample_table ''designation'' ''reference'') ''designation''
       = [Text ''Produit B'', Text ''Produit C'']
   \<and> get_col (duplicate_table sample_table ''designation'' ''reference'') ''designation''
       = [Text ''Produit A'', Text ''Produit A'']"
proof -
  note p = C2_partition [OF sample_run]
  have d: "set (rows (unique_table sample_table ''designation'' ''reference''))
       \<inter> set (rows (duplicate_table sample_table ''designation'' ''reference'')) = {}"
    using p by simp
  have lu: "length (rows (unique_table sample_table ''designation'' ''reference'')) = 2"
    using sample_unique_cols length_get_col [of "unique_table sample_table ''designation'' ''reference''" "''designation''"]
    by simp
  have ld: "length (rows (duplicate_table sample_table ''designation'' ''reference'')) = 2"
    using sample_duplicate_cols length_get_col [of "duplicate_table sample_table ''designation'' ''reference''" "''designation''"]
    by simp
  have l: "length (rows sample_table) = 4" using p lu ld by simp
  show ?thesis using sample_run d lu ld l sample_unique_cols sample_duplicate_cols by simp
qed

text \<open>
  Claim C3. Cleaning the name column of a cleaned table again, with all of lines 37 to
  44, changes nothing if and only if no cleaned name is the word \<open>nan\<close>, has whitespace
  at an end, or holds a whitespace character other than a blank that no whitespace
  follows. Cleaning the reference column again, with all of lines 52 to 67, changes
  nothing if and only if no cleaned reference is the word \<open>nan\<close> or has whitespace at
  an end. When the control characters of the values of the column are all whitespace,
  the cleaned values have no whitespace at an end and, for names, single blanks only,
  so that a second cleaning changes exactly the values that were cleaned to \<open>nan\<close>.
\<close>

theorem C3_cleaning_idempotent:
  "(clean_names c (clean_names c t) = clean_names c t \<longleftrightarrow>
      (\<forall>v \<in> set (get_col (clean_names c t) c).
         py_str v \<noteq> ''nan'' \<and> trimmed (py_str v) \<and> single_blanks (py_str v)))
   \<and> (clean_refs c (clean_refs c t) = clean_refs c t \<longleftrightarrow>
      (\<forall>v \<in> set (get_col (clean_refs c t) c). py_str v \<noteq> ''nan'' \<and> trimmed (py_str v)))
   \<and> ((\<forall>v \<in> set (get_col t c). \<forall>x \<in> set (py_str v). is_control x \<longrightarrow> is_space x) \<longrightarrow>
        (\<forall>v \<in> set (get_col (clean_names c t) c). trimmed (py_str v) \<and> single_blanks (py_str v))
        \<and> (\<forall>v \<in> set (get_col (clean_refs c t) c). trimmed (py_str v)))"
proof (intro conjI impI)
  show "clean_names c (clean_names c t) = clean_names c t \<longleftrightarrow>
      (\<forall>v \<in> set (get_col (clean_names c t) c).
         py_str v \<noteq> ''nan'' \<and> trimmed (py_str v) \<and> single_blanks (py_str v))"
    by (simp add: clean_names_twice get_col_clean_names name_cell_twice)
  show "clean_refs c (clean_refs c t) = clean_refs c t \<longleftrightarrow>
      (\<forall>v \<in> set (get_col (clean_refs c t) c). py_str v \<noteq> ''nan'' \<and> trimmed (py_str v))"
    by (simp add: clean_refs_twice get_col_clean_refs ref_cell_twice)
next
  assume "\<forall>v \<in> set (get_col t c). \<forall>x \<in> set (py_str v). is_control x \<longrightarrow> is_space x"
  then have p: "plain (py_str v)" if "v \<in> set (get_col t c)" for v
    using that by (simp add: plain_def)
  show "\<forall>v \<in> set (get_col (clean_names c t) c). trimmed (py_str v) \<and> single_blanks (py_str v)"
    using p by (simp add: get_col_clean_names name_cell_plain)
  show "\<forall>v \<in> set (get_col (clean_refs c t) c). trimmed (py_str v)"
    using p by (simp add: get_col_clean_refs ref_cell_plain)
qed

text \<open>
  The theorem on a column with a tabulator and runs of blanks around letters and digits,
  the float \<open>NaN\<close>, the integer 10, and code point 1 between two letters: the cleaned
  values are as the condition wants them, and a second cleaning changes nothing. And on
  a column whose values hold no control character, with the text \<open>nan\<close> between
  blanks: the cleaned values have no whitespace at an end and single blanks only, one of
  them is \<open>nan\<close>, and a second cleaning changes the column.
\<close>

theorem C3_cleaning_idempotent_witness:
  "get_col (clean_names ''q'' once_table) ''q''
     = [Text ''Fo 1o2'', Text [], Text ''10'', Text ''ab'']
   \<and> clean_names ''q'' (clean_names ''q'' once_table) = clean_names ''q'' once_table
   \<and> get_col (clean_refs ''q'' once_table) ''q''
     = [Text ''Fo  102'', Text [], Text ''10'', Text ''ab'']
   \<and> clean_refs ''q'' (clean_refs ''q'' once_table) = clean_refs ''q'' once_table
   \<and> get_col missing_table ''q'' = [Number 10, NaN, Text ''nan'', Text '' nan '', Object ''1.0'']
   \<and> get_col (clean_names ''q'' missing_table) ''q''
     = [Text ''10'', Text [], Text [], Text ''nan'', Text ''1.0'']
   \<and> trimmed ''nan'' \<and> single_blanks ''nan'' \<and> trimmed ''1.0'' \<and> single_blanks ''1.0''
   \<and> clean_names ''q'' (clean_names ''q'' missing_table) \<noteq> clean_names ''q'' missing_table"
proof -
  have g: "get_col once_table ''q''
      = [Text [CHR 0x09, CHR ''F'', CHR ''o'', CHR '' '', CHR '' '', CHR ''1'', CHR ''o'', CHR ''2'', CHR '' ''],
         NaN, Number 10, Text [CHR ''a'', CHR 0x01, CHR ''b'']]"
    by (simp add: once_table_def get_col_def cell_of_def)
  have n: "name_cell (Text [CHR 0x09, CHR ''F'', CHR ''o'', CHR '' '', CHR '' '', CHR ''1'', CHR ''o'', CHR ''2'', CHR '' ''])
      = Text ''Fo 1o2''"
    "name_cell NaN = Text []" "name_cell (Number 10) = Text ''10''"
    "name_cell (Text [CHR ''a'', CHR 0x01, CHR ''b'']) = Text ''ab''"
    by code_simp+
  have r: "ref_cell (Text [CHR 0x09, CHR ''F'', CHR ''o'', CHR '' '', CHR '' '', CHR ''1'', CHR ''o'', CHR ''2'', CHR '' ''])
      = Text ''Fo  102''"
    "ref_cell NaN = Text []" "ref_cell (Number 10) = Text ''10''"
    "ref_cell (Text [CHR ''a'', CHR 0x01, CHR ''b'']) = Text ''ab''"
    by code_simp+
  have cn: "get_col (clean_names ''q'' once_table) ''q''
      = [Text ''Fo 1o2'', Text [], Text ''10'', Text ''ab'']"
    by (simp add: get_col_clean_names g n)
  have cr: "get_col (clean_refs ''q'' once_table) ''q''
      = [Text ''Fo  102'', Text [], Text ''10'', Text ''ab'']"
    by (simp add: get_col_clean_refs g r)
  have t: "trimmed ''Fo 1o2''" "trimmed []" "trimmed ''10''" "trimmed ''ab''" "trimmed ''Fo  102''"
    by (simp_all add: trimmed_def is_space_def)
  have s: "single_blanks ''Fo 1o2''" "single_blanks []" "single_blanks ''10''" "single_blanks ''ab''"
    by (simp_all add: is_space_def)
  note idem = C3_cleaning_idempotent [of "''q''" once_table]
  have 1: "clean_names ''q'' (clean_names ''q'' once_table) = clean_names ''q'' once_table"
    using idem [THEN conjunct1] by (simp add: cn py_str_def t s is_space_def)
  have 2: "clean_refs ''q'' (clean_refs ''q'' once_table) = clean_refs ''q'' once_table"
    using idem [THEN conjunct2, THEN conjunct1] by (simp add: cr py_str_def t is_space_def)
  have gm: "get_col missing_table ''q'' = [Number 10, NaN, Text ''nan'', Text '' nan '', Object ''1.0'']"
    by (simp add: missing_table_def get_col_def cell_of_def)
  have pm: "py_str (Number 10) = ''10''" "py_str NaN = ''nan''" "py_str (Text ''nan'') = ''nan''"
    "py_str (Text '' nan '') = '' nan ''" "py_str (Object ''1.0'') = ''1.0''"
    by (simp_all add: py_str_def)
  have nm: "name_cell (Number 10) = Text ''10''" "name_cell NaN = Text []"
    "name_cell (Text ''nan'') = Text []" "name_cell (Text '' nan '') = Text ''nan''"
    "name_cell (Object ''1.0'') = Text ''1.0''"
    by code_simp+
  have cm: "get_col (clean_names ''q'' missing_table) ''q''
      = [Text ''10'', Text [], Text [], Text ''nan'', Text ''1.0'']"
    by (simp add: get_col_clean_names gm nm)
  have pl: "\<forall>v \<in> set (get_col missing_table ''q''). \<forall>x \<in> set (py_str v). is_control x \<longrightarrow> is_space x"
    by (simp add: gm pm is_control_def)
  note idem3 = C3_cleaning_idempotent [of "''q''" missing_table]
  from idem3 [THEN conjunct2, THEN conjunct2, THEN mp, OF pl, THEN conjunct1]
  have 3: "trimmed ''nan'' \<and> single_blanks ''nan'' \<and> trimmed ''1.0'' \<and> single_blanks ''1.0''"
    by (simp add: cm py_str_def)
  have 4: "clean_names ''q'' (clean_names ''q'' missing_table) \<noteq> clean_names ''q'' missing_table"
    using idem3 [THEN conjunct1] by (simp add: cm py_str_def)
  from cn cr 1 2 gm cm 3 4 show ?thesis by simp
qed

text \<open>
  The claim as it stands fails on three values. The name \<open>a\<close>, blank, code point 1,
  blank, \<open>b\<close> is cleaned to \<open>a\<close>, two blanks, \<open>b\<close>, and a second cleaning gives
  \<open>a b\<close>: the source collapses the whitespace before it deletes the control
  characters. The word \<open>nan\<close> between blanks is cleaned to \<open>nan\<close>, which a second
  cleaning reads as a missing value and empties, for a name and for a reference. The
  reference code point 1, blank, \<open>a\<close> is cleaned to blank, \<open>a\<close>, and a second cleaning
  gives \<open>a\<close>.
\<close>

theorem C3_counterexample:
  "get_col (clean_names ''q'' twice_table) ''q'' = [Text ''a  b'', Text ''nan'', Text '' a'']
   \<and> get_col (clean_names ''q'' (clean_names ''q'' twice_table)) ''q''
       = [Text ''a b'', Text [], Text ''a'']
   \<and> clean_names ''q'' (clean_names ''q'' twice_table) \<noteq> clean_names ''q'' twice_table
   \<and> get_col (clean_refs ''q'' twice_table) ''q'' = [Text ''a  b'', Text ''nan'', Text '' a'']
   \<and> get_col (clean_refs ''q'' (clean_refs ''q'' twice_table)) ''q''
       = [Text ''a  b'', Text [], Text ''a'']
   \<and> clean_refs ''q'' (clean_refs ''q'' twice_table) \<noteq> clean_refs ''q'' twice_table"
proof -
  have g: "get_col twice_table ''q''
      = [Text [CHR ''a'', CHR '' '', CHR 0x01, CHR '' '', CHR ''b''], Text '' nan '',
         Text [CHR 0x01, CHR '' '', CHR ''a'']]"
    by (simp add: twice_table_def get_col_def cell_of_def)
  have n: "name_cell (Text [CHR ''a'', CHR '' '', CHR 0x01, CHR '' '', CHR ''b'']) = Text ''a  b''"
    "name_cell (Text '' nan '') = Text ''nan''"
    "name_cell (Text [CHR 0x01, CHR '' '', CHR ''a'']) = Text '' a''"
    "name_cell (Text ''a  b'') = Text ''a b''" "name_cell (Text ''nan'') = Text []"
    "name_cell (Text '' a'') = Text ''a''"
    by code_simp+
  have r: "ref_cell (Text [CHR ''a'', CHR '' '', CHR 0x01, CHR '' '', CHR ''b'']) = Text ''a  b''"
    "ref_cell (Text '' nan '') = Text ''nan''"
    "ref_cell (Text [CHR 0x01, CHR '' '', CHR ''a'']) = Text '' a''"
    "ref_cell (Text ''a  b'') = Text ''a  b''" "ref_cell (Text ''nan'') = Text []"
    "ref_cell (Text '' a'') = Text ''a''"
    by code_simp+
  have n1: "get_col (clean_names ''q'' twice_table) ''q'' = [Text ''a  b'', Text ''nan'', Text '' a'']"
    by (simp add: get_col_clean_names g n)
  have n2: "get_col (clean_names ''q'' (clean_names ''q'' twice_table)) ''q''
      = [Text ''a b'', Text [], Text ''a'']"
    by (simp add: get_col_clean_names g n)
  have r1: "get_col (clean_refs ''q'' twice_table) ''q'' = [Text ''a  b'', Text ''nan'', Text '' a'']"
    by (simp add: get_col_clean_refs g r)
  have r2: "get_col (clean_refs ''q'' (clean_refs ''q'' twice_table)) ''q''
      = [Text ''a  b'', Text [], Text ''a'']"
    by (simp add: get_col_clean_refs g r)
  have n3: "clean_names ''q'' (clean_names ''q'' twice_table) \<noteq> clean_names ''q'' twice_table"
    using n1 n2 by auto
  have r3: "clean_refs ''q'' (clean_refs ''q'' twice_table) \<noteq> clean_refs ''q'' twice_table"
    using r1 r2 by auto
  from n1 n2 n3 r1 r2 r3 show ?thesis by simp
qed

text \<open>
  The run on the table of the four examples: the names differ, so the four rows are in
  \<open>unique_df\<close>, with the corrected references.
\<close>

lemma letter_o_cells:
  "name_cell (Text ''bolt'') = Text ''bolt''" "name_cell (Text ''nut'') = Text ''nut''"
  "name_cell (Text ''screw'') = Text ''screw''" "name_cell (Text ''nail'') = Text ''nail''"
  "ref_cell (Text ''1o2'') = Text ''102''" "ref_cell (Text ''o45'') = Text ''045''"
  "ref_cell (Text ''45o'') = Text ''450''" "ref_cell (Text ''abc'') = Text ''abc''"
  by code_simp+

lemma letter_o_keys:
  "map (temp_key ''name'' ''ref'') (rows letter_o_table)
     = [Text ''bolt|102'', Text ''nut|045'', Text ''screw|450'', Text ''nail|abc'']"
  by (simp add: letter_o_table_def temp_key_def normalized_row_def Let_def letter_o_cells)

lemma letter_o_unique_refs:
  "get_col (unique_table letter_o_table ''name'' ''ref'') ''ref''
     = [Text ''102'', Text ''045'', Text ''450'', Text ''abc'']"
  by (simp add: unique_table_def is_duplicate_def letter_o_keys output_row_def keyed_row_def
        normalized_row_def get_col_def cell_of_def Let_def letter_o_cells letter_o_table_def
        temp_key_def)

lemma letter_o_duplicate_rows: "rows (duplicate_table letter_o_table ''name'' ''ref'') = []"
  by (simp add: duplicate_table_def is_duplicate_def letter_o_table_def temp_key_def
        normalized_row_def Let_def letter_o_cells)

lemma letter_o_run:
  "clean_inventory_data srt [letter_o_table] 0 ''name'' ''ref'' =
     (Inr (2, 3, [msg_refs_corrected 3]),
      [letter_o_table, cleaned_table letter_o_table ''name'' ''ref'',
       unique_table letter_o_table ''name'' ''ref'', duplicate_table letter_o_table ''name'' ''ref''])"
proof -
  have c: "columns letter_o_table = [''name'', ''ref'']" by (simp add: letter_o_table_def)
  have nc: "names_changed_count letter_o_table ''name'' = 0"
    by (simp add: names_changed_count_def get_col_def cell_of_def count_changed_def astype_str_def
          py_str_def letter_o_cells letter_o_table_def)
  have rc: "refs_changed_count letter_o_table ''name'' ''ref'' = 3"
    by (simp add: refs_changed_count_def get_col_def cell_of_def count_changed_def astype_str_def
          py_str_def letter_o_cells letter_o_table_def Let_def)
  have un: "get_col (unique_table letter_o_table ''name'' ''ref'') ''name''
      = [Text ''bolt'', Text ''nut'', Text ''screw'', Text ''nail'']"
    by (simp add: unique_table_def is_duplicate_def letter_o_keys output_row_def keyed_row_def
        normalized_row_def get_col_def cell_of_def Let_def letter_o_cells letter_o_table_def
        temp_key_def)
  have "report srt (names_changed_count letter_o_table ''name'')
      (refs_changed_count letter_o_table ''name'' ''ref'')
      (unique_table letter_o_table ''name'' ''ref'')
      (duplicate_table letter_o_table ''name'' ''ref'') ''name'' ''ref'' = Inr [msg_refs_corrected 3]"
    unfolding nc rc
    by (subst report_value) (simp_all add: c un letter_o_unique_refs letter_o_duplicate_rows
          is_empty_cell_def isna_def)
  then show ?thesis
    using clean_inventory_data_run [of "''name''" "[letter_o_table]" 0 "''ref''" srt]
    by (simp add: c Let_def)
qed

text \<open>
  Claim C4. After the cleaning of lines 52 to 67 a cell of the reference column holds
  the text of its value, trimmed and without its control characters, corrected as the
  specification words it: when this text holds a digit, a letter \<open>o\<close> or \<open>O\<close> is
  replaced by \<open>0\<close> exactly where it stands between two digits, first before a digit, or
  last after a digit, and every other character is kept; a text with no digit is
  unchanged. On the column with \<open>1o2\<close>, \<open>o45\<close>, \<open>45o\<close> and \<open>abc\<close> the cleaning
  gives \<open>102\<close>, \<open>045\<close>, \<open>450\<close> and \<open>abc\<close>, and the run of
  \<open>clean_inventory_data\<close> returns them.
\<close>

theorem C4_o_to_zero_positions:
  "get_col (clean_refs c t) c
     = map (\<lambda>v. Text (spec_fix_o
              (remove_control (strip (if py_str v = ''nan'' then [] else py_str v)))))
         (get_col t c)
   \<and> (\<forall>i < length (rows t).
        \<not> contains_digit
            (remove_control (strip (if py_str (get_col t c ! i) = ''nan'' then []
                                    else py_str (get_col t c ! i))))
        \<longrightarrow> get_col (clean_refs c t) c ! i
            = Text (remove_control (strip (if py_str (get_col t c ! i) = ''nan'' then []
                                           else py_str (get_col t c ! i)))))
   \<and> get_col (clean_refs ''ref'' letter_o_table) ''ref''
       = [Text ''102'', Text ''045'', Text ''450'', Text ''abc'']
   \<and> get_col (snd (clean_inventory_data srt [letter_o_table] 0 ''name'' ''ref'') ! 2) ''ref''
       = [Text ''102'', Text ''045'', Text ''450'', Text ''abc'']"
proof -
  have cell: "ref_cell v
      = Text (spec_fix_o (remove_control (strip (if py_str v = ''nan'' then [] else py_str v))))"
    for v
    unfolding ref_cell_def clean_ref_text_def nan_to_empty_def
    by (simp add: fix_o_spec set_remove_control)
  have 1: "get_col (clean_refs c t) c
     = map (\<lambda>v. Text (spec_fix_o
              (remove_control (strip (if py_str v = ''nan'' then [] else py_str v)))))
         (get_col t c)"
    by (simp add: get_col_clean_refs cell)
  have 2: "get_col (clean_refs c t) c ! i
            = Text (remove_control (strip (if py_str (get_col t c ! i) = ''nan'' then []
                                           else py_str (get_col t c ! i))))"
    if "i < length (rows t)"
      "\<not> contains_digit
            (remove_control (strip (if py_str (get_col t c ! i) = ''nan'' then []
                                    else py_str (get_col t c ! i))))" for i
    using that by (simp add: 1 spec_fix_o_def)
  have g: "get_col letter_o_table ''ref'' = [Text ''1o2'', Text ''o45'', Text ''45o'', Text ''abc'']"
    by (simp add: letter_o_table_def get_col_def cell_of_def)
  have 3: "get_col (clean_refs ''ref'' letter_o_table) ''ref''
       = [Text ''102'', Text ''045'', Text ''450'', Text ''abc'']"
    by (simp add: get_col_clean_refs g letter_o_cells)
  have 4: "get_col (snd (clean_inventory_data srt [letter_o_table] 0 ''name'' ''ref'') ! 2) ''ref''
       = [Text ''102'', Text ''045'', Text ''450'', Text ''abc'']"
    unfolding letter_o_run by (simp add: letter_o_unique_refs)
  from 1 2 3 4 show ?thesis by blast
qed

text \<open>
  The theorem on a column with \<open>oOo\<close>, which holds no digit and is kept, and with
  \<open>o1O2o\<close> between blanks, where the three positions all occur.
\<close>

theorem C4_o_to_zero_positions_witness:
  "get_col letter_o_table2 ''ref'' = [Text ''oOo'', Text '' o1O2o '']
   \<and> \<not> contains_digit (remove_control (strip ''oOo''))
   \<and> spec_fix_o (remove_control (strip '' o1O2o '')) = ''01020''
   \<and> get_col (clean_refs ''ref'' letter_o_table2) ''ref'' ! 0 = Text ''oOo''
   \<and> get_col (clean_refs ''ref'' letter_o_table2) ''ref'' = [Text ''oOo'', Text ''01020'']"
proof -
  have g: "get_col letter_o_table2 ''ref'' = [Text ''oOo'', Text '' o1O2o '']"
    by (simp add: letter_o_table2_def get_col_def cell_of_def)
  have 1: "remove_control (strip ''oOo'') = ''oOo''" by code_simp
  have 2: "\<not> contains_digit ''oOo''" by (simp add: contains_digit_def is_digit_def)
  have 3: "remove_control (strip '' o1O2o '') = ''o1O2o''" by code_simp
  have 4: "spec_fix_o ''o1O2o'' = ''01020''" by code_simp
  have 5: "spec_fix_o ''oOo'' = ''oOo''" using 2 by (simp add: spec_fix_o_def)
  have l: "length (rows letter_o_table2) = 2" by (simp add: letter_o_table2_def)
  have a: "get_col (clean_refs ''ref'' letter_o_table2) ''ref'' ! 0 = Text ''oOo''"
    using C4_o_to_zero_positions [of "''ref''" letter_o_table2, THEN conjunct2, THEN conjunct1,
        rule_format, of 0]
    by (simp add: g l py_str_def 1 2)
  have b: "get_col (clean_refs ''ref'' letter_o_table2) ''ref'' = [Text ''oOo'', Text ''01020'']"
    using C4_o_to_zero_positions [of "''ref''" letter_o_table2, THEN conjunct1]
    by (simp add: g py_str_def 1 3 4 5)
  from g 1 2 3 4 a b show ?thesis by simp
qed

text \<open>
  Lines 37 and 38, and lines 52 and 53, first turn every cell of the column into its
  text (\<open>astype(str)\<close>) and a text that reads \<open>nan\<close> into the empty text; the
  remaining cleaning is applied to the result. The float \<open>NaN\<close> reads \<open>nan\<close>, so
  this missing value, and any value whose text is \<open>nan\<close>, is cleaned to the empty
  text. The other null values read \<open>None\<close>, \<open>NaT\<close> and \<open><NA>\<close>, and these texts
  are what the cleaned column holds.
\<close>

lemma missing_values_cleaned:
  "get_col (clean_names c t) c
     = map (\<lambda>v. Text (clean_name_text (if py_str v = ''nan'' then [] else py_str v))) (get_col t c)
   \<and> get_col (clean_refs c t) c
     = map (\<lambda>v. Text (clean_ref_text (if py_str v = ''nan'' then [] else py_str v))) (get_col t c)
   \<and> (\<forall>i < length (rows t).
        get_col t c ! i = NaN \<or> py_str (get_col t c ! i) = ''nan'' \<longrightarrow>
          get_col (clean_names c t) c ! i = Text [] \<and> get_col (clean_refs c t) c ! i = Text [])
   \<and> (\<forall>i < length (rows t).
        get_col t c ! i = PyNone \<longrightarrow>
          get_col (clean_names c t) c ! i = Text ''None''
          \<and> get_col (clean_refs c t) c ! i = Text ''None'')
   \<and> (\<forall>i < length (rows t).
        get_col t c ! i = NaT \<longrightarrow>
          get_col (clean_names c t) c ! i = Text ''NaT''
          \<and> get_col (clean_refs c t) c ! i = Text ''NaT'')
   \<and> (\<forall>i < length (rows t).
        get_col t c ! i = NA \<longrightarrow>
          get_col (clean_names c t) c ! i = Text ''<NA>''
          \<and> get_col (clean_refs c t) c ! i = Text ''<NA>'')"
proof -
  have n: "name_cell = (\<lambda>v. Text (clean_name_text (if py_str v = ''nan'' then [] else py_str v)))"
    by (rule ext) (simp add: name_cell_def nan_to_empty_def)
  have r: "ref_cell = (\<lambda>v. Text (clean_ref_text (if py_str v = ''nan'' then [] else py_str v)))"
    by (rule ext) (simp add: ref_cell_def nan_to_empty_def)
  have nan: "name_cell v = Text [] \<and> ref_cell v = Text []" if "v = NaN \<or> py_str v = ''nan''" for v
    using that by (auto simp: name_cell_def ref_cell_def nan_to_empty_def py_str_def)
  have none: "name_cell PyNone = Text ''None''" "ref_cell PyNone = Text ''None''" by code_simp+
  have nat: "name_cell NaT = Text ''NaT''" "ref_cell NaT = Text ''NaT''" by code_simp+
  have na: "name_cell NA = Text ''<NA>''" "ref_cell NA = Text ''<NA>''" by code_simp+
  have 1: "get_col (clean_names c t) c
     = map (\<lambda>v. Text (clean_name_text (if py_str v = ''nan'' then [] else py_str v))) (get_col t c)"
    using get_col_clean_names [of c t] by (simp add: n)
  have 2: "get_col (clean_refs c t) c
     = map (\<lambda>v. Text (clean_ref_text (if py_str v = ''nan'' then [] else py_str v))) (get_col t c)"
    using get_col_clean_refs [of c t] by (simp add: r)
  have 3: "get_col (clean_names c t) c ! i = Text [] \<and> get_col (clean_refs c t) c ! i = Text []"
    if "i < length (rows t)" "get_col t c ! i = NaN \<or> py_str (get_col t c ! i) = ''nan''" for i
    using that nan [of "get_col t c ! i"] by (simp add: get_col_clean_names get_col_clean_refs)
  have 4: "get_col (clean_names c t) c ! i = Text ''None''
          \<and> get_col (clean_refs c t) c ! i = Text ''None''"
    if "i < length (rows t)" "get_col t c ! i = PyNone" for i
    using that none by (simp add: get_col_clean_names get_col_clean_refs)
  have 5: "get_col (clean_names c t) c ! i = Text ''NaT''
          \<and> get_col (clean_refs c t) c ! i = Text ''NaT''"
    if "i < length (rows t)" "get_col t c ! i = NaT" for i
    using that nat by (simp add: get_col_clean_names get_col_clean_refs)
  have 6: "get_col (clean_names c t) c ! i = Text ''<NA>''
          \<and> get_col (clean_refs c t) c ! i = Text ''<NA>''"
    if "i < length (rows t)" "get_col t c ! i = NA" for i
    using that na by (simp add: get_col_clean_names get_col_clean_refs)
  from 1 2 3 4 5 6 show ?thesis by blast
qed

text \<open>
  The lemma on a column that holds 10, the float \<open>NaN\<close>, the text \<open>nan\<close>, the text
  \<open>nan\<close> between blanks and the float 1.0. The text between blanks is compared before
  it is trimmed and is kept.
\<close>

lemma missing_values_example:
  "get_col missing_table ''q'' = [Number 10, NaN, Text ''nan'', Text '' nan '', Object ''1.0'']
   \<and> get_col (clean_names ''q'' missing_table) ''q'' ! 1 = Text []
   \<and> get_col (clean_refs ''q'' missing_table) ''q'' ! 2 = Text []
   \<and> get_col (clean_names ''q'' missing_table) ''q''
       = [Text ''10'', Text [], Text [], Text ''nan'', Text ''1.0'']
   \<and> get_col (clean_refs ''q'' missing_table) ''q''
       = [Text ''10'', Text [], Text [], Text ''nan'', Text ''1.0'']"
proof -
  have g: "get_col missing_table ''q'' = [Number 10, NaN, Text ''nan'', Text '' nan '', Object ''1.0'']"
    by (simp add: missing_table_def get_col_def cell_of_def)
  have l: "length (rows missing_table) = 5" by (simp add: missing_table_def)
  have p: "py_str (Number 10) = ''10''" "py_str NaN = ''nan''" "py_str (Text ''nan'') = ''nan''"
    "py_str (Text '' nan '') = '' nan ''" "py_str (Object ''1.0'') = ''1.0''"
    by (simp_all add: py_str_def)
  have e: "clean_name_text ''1.0'' = ''1.0''" "clean_ref_text ''1.0'' = ''1.0''" by code_simp+
  note t = missing_values_cleaned [of "''q''" missing_table]
  have a: "get_col (clean_names ''q'' missing_table) ''q'' ! 1 = Text []"
    using t [THEN conjunct2, THEN conjunct2, THEN conjunct1, rule_format, of 1]
    by (simp add: g l)
  have b: "get_col (clean_refs ''q'' missing_table) ''q'' ! 2 = Text []"
    using t [THEN conjunct2, THEN conjunct2, THEN conjunct1, rule_format, of 2]
    by (simp add: g l p)
  have c: "get_col (clean_names ''q'' missing_table) ''q''
       = [Text ''10'', Text [], Text [], Text ''nan'', Text ''1.0'']"
    using t [THEN conjunct1]
    by (simp add: g p clean_name_10 clean_name_nan_blanks e)
  have d: "get_col (clean_refs ''q'' missing_table) ''q''
       = [Text ''10'', Text [], Text [], Text ''nan'', Text ''1.0'']"
    using t [THEN conjunct2, THEN conjunct1]
    by (simp add: g p clean_ref_10 clean_ref_nan_blanks e)
  from g a b c d show ?thesis by simp
qed

lemma null_cells:
  "name_cell PyNone = Text ''None''" "ref_cell PyNone = Text ''None''"
  "name_cell NaT = Text ''NaT''" "ref_cell NaT = Text ''NaT''"
  "name_cell NA = Text ''<NA>''" "ref_cell NA = Text ''<NA>''"
  by code_simp+

lemma null_run:
  "clean_inventory_data srt [null_run_table] 0 ''name'' ''ref'' =
     (Inr (2, 3, []),
      [null_run_table, cleaned_table null_run_table ''name'' ''ref'',
       unique_table null_run_table ''name'' ''ref'', duplicate_table null_run_table ''name'' ''ref''])"
proof -
  have c: "columns null_run_table = [''name'', ''ref'']" by (simp add: null_run_table_def)
  have nc: "names_changed_count null_run_table ''name'' = 0"
    by (simp add: names_changed_count_def get_col_def cell_of_def count_changed_def astype_str_def
          py_str_def null_cells bolt_name null_run_table_def)
  have rc: "refs_changed_count null_run_table ''name'' ''ref'' = 0"
    by (simp add: refs_changed_count_def get_col_def cell_of_def count_changed_def astype_str_def
          py_str_def null_cells bolt_ref null_run_table_def Let_def)
  have un: "get_col (unique_table null_run_table ''name'' ''ref'') ''name''
      = [Text ''None'', Text ''bolt'']"
    "get_col (unique_table null_run_table ''name'' ''ref'') ''ref'' = [Text ''B1'', Text ''NaT'']"
    by (simp_all add: unique_table_def is_duplicate_def output_row_def keyed_row_def
        normalized_row_def get_col_def cell_of_def Let_def null_cells bolt_name bolt_ref
        null_run_table_def temp_key_def)
  have d: "rows (duplicate_table null_run_table ''name'' ''ref'') = []"
    by (simp add: duplicate_table_def is_duplicate_def null_run_table_def temp_key_def
        normalized_row_def Let_def null_cells bolt_name bolt_ref)
  have "report srt (names_changed_count null_run_table ''name'')
      (refs_changed_count null_run_table ''name'' ''ref'')
      (unique_table null_run_table ''name'' ''ref'')
      (duplicate_table null_run_table ''name'' ''ref'') ''name'' ''ref'' = Inr []"
    unfolding nc rc
    by (subst report_value) (simp_all add: c un d is_empty_cell_def isna_def)
  then show ?thesis
    using clean_inventory_data_run [of "''name''" "[null_run_table]" 0 "''ref''" srt]
    by (simp add: c Let_def)
qed

text \<open>
  Claim C5. Every cell of the name or the reference column is turned into its text, and
  every missing value, as well as any value whose text is \<open>nan\<close>, becomes the empty
  text before the remaining cleaning. The code does this for the float \<open>NaN\<close> and
  for the text \<open>nan\<close> only: line 38 replaces the text \<open>nan\<close>, and the other null
  values read \<open>None\<close>, \<open>NaT\<close> and \<open><NA>\<close>. On the table with the rows
  (\<open>None\<close>, \<open>B1\<close>) and (\<open>bolt\<close>, \<open>NaT\<close>) the call returns a product that is
  named \<open>None\<close> and a reference that reads \<open>NaT\<close>, and no warning of an empty name
  or an empty reference; a column with \<open>None\<close>, \<open>NaT\<close> and \<open>pd.NA\<close> is cleaned
  to the three texts.
\<close>

theorem C5_other_nulls_kept:
  "get_col ([null_run_table] ! 0) ''name'' = [PyNone, Text ''bolt'']
   \<and> get_col ([null_run_table] ! 0) ''ref'' = [Text ''B1'', NaT]
   \<and> isna PyNone \<and> isna NaT \<and> isna NA
   \<and> fst (clean_inventory_data srt [null_run_table] 0 ''name'' ''ref'') = Inr (2, 3, [])
   \<and> get_col (snd (clean_inventory_data srt [null_run_table] 0 ''name'' ''ref'') ! 2) ''name''
       = [Text ''None'', Text ''bolt'']
   \<and> get_col (snd (clean_inventory_data srt [null_run_table] 0 ''name'' ''ref'') ! 2) ''ref''
       = [Text ''B1'', Text ''NaT'']
   \<and> get_col null_table ''q'' = [PyNone, NaT, NA]
   \<and> get_col (clean_names ''q'' null_table) ''q'' = [Text ''None'', Text ''NaT'', Text ''<NA>'']
   \<and> get_col (clean_refs ''q'' null_table) ''q'' = [Text ''None'', Text ''NaT'', Text ''<NA>'']"
proof -
  have g: "get_col null_table ''q'' = [PyNone, NaT, NA]"
    by (simp add: null_table_def get_col_def cell_of_def)
  have h: "get_col null_run_table ''name'' = [PyNone, Text ''bolt'']"
    "get_col null_run_table ''ref'' = [Text ''B1'', NaT]"
    by (simp_all add: null_run_table_def get_col_def cell_of_def)
  have un: "get_col (unique_table null_run_table ''name'' ''ref'') ''name''
      = [Text ''None'', Text ''bolt'']"
    "get_col (unique_table null_run_table ''name'' ''ref'') ''ref'' = [Text ''B1'', Text ''NaT'']"
    by (simp_all add: unique_table_def is_duplicate_def output_row_def keyed_row_def
        normalized_row_def get_col_def cell_of_def Let_def null_cells bolt_name bolt_ref
        null_run_table_def temp_key_def)
  show ?thesis
    unfolding null_run
    by (simp add: get_col_clean_names get_col_clean_refs g h un null_cells isna_def)
qed

text \<open>
  Claim C6. When the name column or the reference column is not a column of the table,
  \<open>clean_inventory_data\<close> raises \<open>ValueError\<close> for the first missing one, and the
  store is the one it was called with: no DataFrame was created and none was changed.
\<close>

theorem C6_missing_column:
  assumes "n \<notin> set (columns (st ! df)) \<or> r \<notin> set (columns (st ! df))"
  shows "clean_inventory_data srt st df n r
       = (Inl (ValueError (if n \<notin> set (columns (st ! df)) then n else r)), st)"
  using assms by (auto simp: clean_inventory_data_def)

text \<open>The theorem on the sample data, for a missing reference column and for both missing.\<close>

theorem C6_missing_column_witness:
  "''ref'' \<notin> set (columns ([sample_table] ! 0))
   \<and> clean_inventory_data stable_sort_values [sample_table] 0 ''designation'' ''ref''
       = (Inl (ValueError ''ref''), [sample_table])
   \<and> clean_inventory_data stable_sort_values [sample_table] 0 ''nom'' ''ref''
       = (Inl (ValueError ''nom''), [sample_table])"
proof -
  have c: "columns sample_table = [''designation'', ''reference'', ''quantite'', ''prix'']"
    by (simp add: sample_table_def)
  show ?thesis
    using C6_missing_column [of "''designation''" "[sample_table]" 0 "''ref''"]
      C6_missing_column [of "''nom''" "[sample_table]" 0 "''ref''"]
    by (simp add: c)
qed

text \<open>
  For a table with no row, when the name and the reference column are columns of the
  table and neither is named \<open>_temp_key\<close>, \<open>clean_inventory_data\<close> returns a
  \<open>unique_df\<close> and a \<open>duplicate_df\<close> with no row and no warning. The duplicate
  rate of line 227 is 0 for a table with no row: the condition keeps the division from
  being evaluated, which would raise \<open>ZeroDivisionError\<close>.
\<close>

lemma zero_rows_run:
  assumes "rows (st ! df) = []"
    and "n \<in> set (columns (st ! df))" and "r \<in> set (columns (st ! df))"
    and "n \<noteq> ''_temp_key''" and "r \<noteq> ''_temp_key''"
  shows "\<exists>u d st'. clean_inventory_data srt st df n r = (Inr (u, d, []), st')
           \<and> rows (st' ! u) = [] \<and> rows (st' ! d) = []
           \<and> duplicate_rate (length (rows (st' ! d))) (length (rows (st ! df))) = Inr 0"
proof -
  let ?t = "st ! df"
  let ?st' = "st @ [cleaned_table ?t n r, unique_table ?t n r, duplicate_table ?t n r]"
  have nc: "names_changed_count ?t n = 0"
    using assms(1) by (simp add: names_changed_count_def get_col_def count_changed_def)
  have rc: "refs_changed_count ?t n r = 0"
    using assms(1) by (simp add: refs_changed_count_def count_changed_def)
  have ru: "rows (unique_table ?t n r) = []" using assms(1) by (simp add: unique_table_def)
  have rd: "rows (duplicate_table ?t n r) = []" using assms(1) by (simp add: duplicate_table_def)
  have "report srt (names_changed_count ?t n) (refs_changed_count ?t n r)
          (unique_table ?t n r) (duplicate_table ?t n r) n r = Inr []"
    unfolding nc rc using assms(2-5) ru rd by (intro report_no_rows) simp_all
  then have run: "clean_inventory_data srt st df n r = (Inr (length st + 1, length st + 2, []), ?st')"
    using clean_inventory_data_run [OF assms(2,3)] by (simp add: Let_def)
  have "rows (?st' ! (length st + 1)) = []" using ru by (simp add: nth_append)
  moreover have "rows (?st' ! (length st + 2)) = []" using rd by (simp add: nth_append)
  moreover have "duplicate_rate (length (rows (?st' ! (length st + 2)))) (length (rows ?t)) = Inr 0"
    using assms(1) by (simp add: duplicate_rate_def)
  ultimately show ?thesis using run by blast
qed

lemma duplicate_rate_guard:
  "duplicate_rate d 0 = Inr 0" "py_truediv d 0 = Inl ZeroDivisionError"
  "0 < n \<Longrightarrow> duplicate_rate d n = Inr (of_nat d / of_nat n * 100)"
  by (simp_all add: duplicate_rate_def py_truediv_def)

text \<open>
  Claim C7. For a table with no row the cleaning returns a \<open>unique_df\<close> and a
  \<open>duplicate_df\<close> with no row and no warning, and the duplicate rate is 0. The code
  does not return on the table with the columns \<open>name\<close>, \<open>ref\<close> and \<open>_temp_key\<close>
  and no row, when \<open>_temp_key\<close> is selected as the name column: the column passes the
  check of line 24, line 72 overwrites it with the key, lines 78 and 79 drop it, and line
  88 raises \<open>KeyError\<close>. On the table with the columns of the sample and no row the
  code does what the claim says, and the rate of line 227 is 0 with no division.
\<close>

theorem C7_zero_rows_temp_key:
  "rows ([empty_temp_key_table] ! 0) = []
   \<and> columns ([empty_temp_key_table] ! 0) = [''name'', ''ref'', ''_temp_key'']
   \<and> clean_inventory_data srt [empty_temp_key_table] 0 ''_temp_key'' ''ref''
       = (Inl (KeyError ''_temp_key''),
          [empty_temp_key_table, \<lparr>columns = [''name'', ''ref'', ''_temp_key''], rows = []\<rparr>,
           \<lparr>columns = [''name'', ''ref''], rows = []\<rparr>,
           \<lparr>columns = [''name'', ''ref''], rows = []\<rparr>])
   \<and> rows ([empty_table] ! 0) = []
   \<and> clean_inventory_data srt [empty_table] 0 ''designation'' ''reference''
       = (Inr (2, 3, []),
          [empty_table,
           \<lparr>columns = [''designation'', ''reference'', ''quantite'', ''prix'', ''_temp_key''],
            rows = []\<rparr>,
           \<lparr>columns = [''designation'', ''reference'', ''quantite'', ''prix''], rows = []\<rparr>,
           \<lparr>columns = [''designation'', ''reference'', ''quantite'', ''prix''], rows = []\<rparr>])
   \<and> duplicate_rate 0 0 = Inr 0"
proof -
  have r1: "rows empty_temp_key_table = []" by (simp add: empty_temp_key_table_def)
  have r2: "rows empty_table = []" by (simp add: empty_table_def)
  have t1: "cleaned_table empty_temp_key_table ''_temp_key'' ''ref''
        = \<lparr>columns = [''name'', ''ref'', ''_temp_key''], rows = []\<rparr>"
    "unique_table empty_temp_key_table ''_temp_key'' ''ref'' = \<lparr>columns = [''name'', ''ref''], rows = []\<rparr>"
    "duplicate_table empty_temp_key_table ''_temp_key'' ''ref'' = \<lparr>columns = [''name'', ''ref''], rows = []\<rparr>"
    by (simp_all add: cleaned_table_def unique_table_def duplicate_table_def
          empty_temp_key_table_def)
  have t2: "cleaned_table empty_table ''designation'' ''reference''
        = \<lparr>columns = [''designation'', ''reference'', ''quantite'', ''prix'', ''_temp_key''],
            rows = []\<rparr>"
    "unique_table empty_table ''designation'' ''reference''
        = \<lparr>columns = [''designation'', ''reference'', ''quantite'', ''prix''], rows = []\<rparr>"
    "duplicate_table empty_table ''designation'' ''reference''
        = \<lparr>columns = [''designation'', ''reference'', ''quantite'', ''prix''], rows = []\<rparr>"
    by (simp_all add: cleaned_table_def unique_table_def duplicate_table_def empty_table_def)
  have k: "report srt nc rc \<lparr>columns = [''name'', ''ref''], rows = []\<rparr> d ''_temp_key'' ''ref''
      = Inl (KeyError ''_temp_key'')" for nc rc d
    by (simp add: report_KeyError_name)
  have 1: "clean_inventory_data srt [empty_temp_key_table] 0 ''_temp_key'' ''ref''
       = (Inl (KeyError ''_temp_key''),
          [empty_temp_key_table, \<lparr>columns = [''name'', ''ref'', ''_temp_key''], rows = []\<rparr>,
           \<lparr>columns = [''name'', ''ref''], rows = []\<rparr>,
           \<lparr>columns = [''name'', ''ref''], rows = []\<rparr>])"
    using clean_inventory_data_run [of "''_temp_key''" "[empty_temp_key_table]" 0 "''ref''" srt]
    by (simp add: empty_temp_key_table_columns t1 k Let_def)
  have nc: "names_changed_count empty_table ''designation'' = 0"
    by (simp add: names_changed_count_def get_col_def count_changed_def r2)
  have rc: "refs_changed_count empty_table ''designation'' ''reference'' = 0"
    by (simp add: refs_changed_count_def count_changed_def r2)
  have w: "report srt 0 0
      \<lparr>columns = [''designation'', ''reference'', ''quantite'', ''prix''], rows = []\<rparr>
      \<lparr>columns = [''designation'', ''reference'', ''quantite'', ''prix''], rows = []\<rparr>
      ''designation'' ''reference'' = Inr []"
    by (rule report_no_rows) simp_all
  have 2: "clean_inventory_data srt [empty_table] 0 ''designation'' ''reference''
       = (Inr (2, 3, []),
          [empty_table,
           \<lparr>columns = [''designation'', ''reference'', ''quantite'', ''prix'', ''_temp_key''],
            rows = []\<rparr>,
           \<lparr>columns = [''designation'', ''reference'', ''quantite'', ''prix''], rows = []\<rparr>,
           \<lparr>columns = [''designation'', ''reference'', ''quantite'', ''prix''], rows = []\<rparr>])"
    using clean_inventory_data_run [of "''designation''" "[empty_table]" 0 "''reference''" srt]
    by (simp add: empty_table_columns t2 nc rc w Let_def)
  have 3: "duplicate_rate 0 0 = Inr 0" by (simp add: duplicate_rate_def)
  from r1 r2 1 2 3 show ?thesis by (simp add: empty_temp_key_table_columns)
qed

text \<open>
  Claim C8. When \<open>clean_inventory_data\<close> returns, its warnings are, in this order: the
  number of changed names when it is not 0, the number of changed references when it is
  not 0, the numbers of empty names and empty references of \<open>unique_df\<close> when they are
  not 0, and, when \<open>duplicate_df\<close> has a row, the number of groups, the header and one
  message per top group. The groups are the distinct (name, reference) pairs of
  \<open>duplicate_df\<close>, each with the number of rows that hold it; the top groups are five
  of them, or all of them when there are fewer, by falling size, and no group left out is
  larger than a group listed; among groups of equal size the order and the choice are
  those of the sorting function. The message of a group is two blanks, a bullet, a
  blank, the name between apostrophes, \<open>|\<close> between blanks, the reference between
  apostrophes, a colon between blanks, the size in decimal, and the word
  \<open>occurrences\<close> after a blank.
\<close>

theorem C8_warning_report:
  assumes "clean_inventory_data srt st df n r = (Inr (u, d, w), st')"
    and "sorts_descending srt"
  shows
    "(let dup = st' ! d; uniq = st' ! u;
          groups = group_sizes dup n r; top = top_duplicates srt groups;
          nc = names_changed_count (st ! df) n; rc = refs_changed_count (st ! df) n r;
          en = length (filter is_empty_cell (get_col uniq n));
          er = length (filter is_empty_cell (get_col uniq r))
      in w = (if 0 < nc then [msg_names_cleaned nc] else [])
             @ (if 0 < rc then [msg_refs_corrected rc] else [])
             @ (if 0 < en then [msg_empty_names en] else [])
             @ (if 0 < er then [msg_empty_refs er] else [])
             @ (if rows dup = [] then []
                else [msg_duplicate_groups (length groups), msg_top_header]
                     @ map (\<lambda>((a, b), c). msg_top_duplicate a b c) top)
        \<and> length groups = card (set (key_pairs dup n r))
        \<and> distinct (map fst groups) \<and> set (map fst groups) = set (key_pairs dup n r)
        \<and> (\<forall>(k, c) \<in> set groups. c = count_list (key_pairs dup n r) k)
        \<and> length top = min 5 (length groups) \<and> set top \<subseteq> set groups \<and> distinct top
        \<and> (\<forall>i j. i \<le> j \<and> j < length top \<longrightarrow> snd (top ! j) \<le> snd (top ! i))
        \<and> (\<forall>x \<in> set groups - set top. \<forall>y \<in> set top. snd x \<le> snd y))
     \<and> (\<forall>a b c. msg_top_duplicate a b c
           = [32, 32, 8226, 32, 39] @ code_points a @ [39] @ code_points '' | '' @ [39]
             @ code_points b @ [39] @ code_points '' : '' @ code_points (digits_of c)
             @ code_points '' occurrences'')"
proof -
  let ?t = "st ! df"
  let ?u = "unique_table ?t n r"
  let ?d = "duplicate_table ?t n r"
  let ?g = "group_sizes ?d n r"
  let ?top = "top_duplicates srt ?g"
  note f = clean_inventory_data_Inr [OF assms(1)]
  have cu: "n \<in> set (columns ?u)" "r \<in> set (columns ?u)" using f(1-4) by simp_all
  have w: "w = (if 0 < names_changed_count ?t n then [msg_names_cleaned (names_changed_count ?t n)] else [])
         @ (if 0 < refs_changed_count ?t n r then [msg_refs_corrected (refs_changed_count ?t n r)] else [])
         @ (if 0 < length (filter is_empty_cell (get_col ?u n))
            then [msg_empty_names (length (filter is_empty_cell (get_col ?u n)))] else [])
         @ (if 0 < length (filter is_empty_cell (get_col ?u r))
            then [msg_empty_refs (length (filter is_empty_cell (get_col ?u r)))] else [])
         @ (if rows ?d = [] then []
            else [msg_duplicate_groups (length ?g), msg_top_header]
                 @ map (\<lambda>((a, b), c). msg_top_duplicate a b c) ?top)"
    using f(10) report_value [OF cu] by simp
  have dg: "distinct ?g" using group_sizes_distinct [of ?d n r] by (simp add: distinct_map)
  have props: "length ?g = card (set (key_pairs ?d n r))
        \<and> distinct (map fst ?g) \<and> set (map fst ?g) = set (key_pairs ?d n r)
        \<and> (\<forall>(k, c) \<in> set ?g. c = count_list (key_pairs ?d n r) k)
        \<and> length ?top = min 5 (length ?g)
        \<and> set ?top \<subseteq> set ?g \<and> distinct ?top
        \<and> (\<forall>i j. i \<le> j \<and> j < length ?top \<longrightarrow> snd (?top ! j) \<le> snd (?top ! i))
        \<and> (\<forall>x \<in> set ?g - set ?top. \<forall>y \<in> set ?top. snd x \<le> snd y)"
  proof (intro conjI allI impI ballI)
    show "length ?g = card (set (key_pairs ?d n r))" by (rule group_sizes_length)
    show "distinct (map fst ?g)" by (rule group_sizes_distinct)
    show "set (map fst ?g) = set (key_pairs ?d n r)" by (rule group_sizes_set)
    show "length ?top = min 5 (length ?g)" using assms(2) by (rule top_duplicates_length)
    show "set ?top \<subseteq> set ?g" using assms(2) by (rule top_duplicates_subset)
    show "distinct ?top" using assms(2) dg by (rule top_duplicates_distinct)
  next
    fix x assume "x \<in> set ?g"
    then show "case x of (k, c) \<Rightarrow> c = count_list (key_pairs ?d n r) k"
      using group_sizes_count [of "fst x" "snd x" ?d n r] by (simp add: case_prod_unfold)
  next
    fix i j assume "i \<le> j \<and> j < length ?top"
    then show "snd (?top ! j) \<le> snd (?top ! i)"
      using assms(2) by (simp add: top_duplicates_descending)
  next
    fix x y assume "x \<in> set ?g - set ?top" "y \<in> set ?top"
    with assms(2) show "snd x \<le> snd y" by (rule top_duplicates_largest)
  qed
  have render: "msg_top_duplicate a b c
           = [32, 32, 8226, 32, 39] @ code_points a @ [39] @ code_points '' | '' @ [39]
             @ code_points b @ [39] @ code_points '' : '' @ code_points (digits_of c)
             @ code_points '' occurrences''" for a b c
    by (simp add: msg_top_duplicate_def code_points_def)
  show ?thesis
    unfolding Let_def f(8) f(9) using w props render by (intro conjI allI) simp_all
qed

text \<open>
  The theorem on the sample data: one group, Produit A with REF001, of size 2, and its
  message, code point by code point.
\<close>

theorem C8_warning_report_witness:
  "sorts_descending stable_sort_values
   \<and> fst (clean_inventory_data stable_sort_values [sample_table] 0 ''designation'' ''reference'')
     = Inr (2, 3, [msg_duplicate_groups 1, msg_top_header,
                   msg_top_duplicate ''Produit A'' ''REF001'' 2])
   \<and> group_sizes (duplicate_table sample_table ''designation'' ''reference'')
         ''designation'' ''reference'' = [((''Produit A'', ''REF001''), 2)]
   \<and> card (set (key_pairs (duplicate_table sample_table ''designation'' ''reference'')
         ''designation'' ''reference'')) = 1
   \<and> length (top_duplicates stable_sort_values
        (group_sizes (duplicate_table sample_table ''designation'' ''reference'')
         ''designation'' ''reference'')) = 1
   \<and> msg_top_duplicate ''Produit A'' ''REF001'' 2
       = [32, 32, 8226, 32, 39, 80, 114, 111, 100, 117, 105, 116, 32, 65, 39, 32, 124, 32, 39,
          82, 69, 70, 48, 48, 49, 39, 32, 58, 32, 50, 32, 111, 99, 99, 117, 114, 114, 101, 110,
          99, 101, 115]"
proof -
  let ?d = "duplicate_table sample_table ''designation'' ''reference''"
  note t = C8_warning_report [OF sample_run stable_sort_values_sorts, unfolded Let_def]
  have d: "[sample_table, cleaned_table sample_table ''designation'' ''reference'',
       unique_table sample_table ''designation'' ''reference'', ?d] ! 3 = ?d"
    by simp
  have len: "length (group_sizes ?d ''designation'' ''reference'')
        = card (set (key_pairs ?d ''designation'' ''reference''))"
    using t [THEN conjunct1, THEN conjunct2, THEN conjunct1] unfolding d .
  have top: "length (top_duplicates stable_sort_values (group_sizes ?d ''designation'' ''reference''))
        = min 5 (length (group_sizes ?d ''designation'' ''reference''))"
    using t [THEN conjunct1, THEN conjunct2, THEN conjunct2, THEN conjunct2, THEN conjunct2,
        THEN conjunct2, THEN conjunct1] unfolding d .
  have 1: "card (set (key_pairs ?d ''designation'' ''reference'')) = 1"
    using len by (simp add: sample_groups)
  have 2: "length (top_duplicates stable_sort_values (group_sizes ?d ''designation'' ''reference'')) = 1"
    using top by (simp add: sample_groups)
  have c: "code_points ''Produit A'' = [80, 114, 111, 100, 117, 105, 116, 32, 65]"
    "code_points ''REF001'' = [82, 69, 70, 48, 48, 49]"
    "code_points '' | '' = [32, 124, 32]" "code_points '' : '' = [32, 58, 32]"
    "code_points ''2'' = [50]"
    "code_points '' occurrences'' = [32, 111, 99, 99, 117, 114, 114, 101, 110, 99, 101, 115]"
    by (simp_all add: code_points_def)
  have 3: "msg_top_duplicate ''Produit A'' ''REF001'' 2
       = [32, 32, 8226, 32, 39, 80, 114, 111, 100, 117, 105, 116, 32, 65, 39, 32, 124, 32, 39,
          82, 69, 70, 48, 48, 49, 39, 32, 58, 32, 50, 32, 111, 99, 99, 117, 114, 114, 101, 110,
          99, 101, 115]"
    using t [THEN conjunct2, rule_format, of "''Produit A''" "''REF001''" 2] by (simp add: c)
  show ?thesis using 1 2 3 by (simp add: sample_run sample_groups stable_sort_values_sorts)
qed

text \<open>
  The claim as it stands fails on the text of the message: for the sample data the
  message of the group is not \<open>Produit A | REF001 : 2\<close>. It starts with two blanks and
  a bullet, the name and the reference stand between apostrophes, and the word
  \<open>occurrences\<close> follows the size.
\<close>

theorem C8_counterexample:
  "fst (clean_inventory_data stable_sort_values [sample_table] 0 ''designation'' ''reference'')
     = Inr (2, 3, [msg_duplicate_groups 1, msg_top_header,
                   msg_top_duplicate ''Produit A'' ''REF001'' 2])
   \<and> msg_top_duplicate ''Produit A'' ''REF001'' 2
       = [32, 32, 8226, 32, 39, 80, 114, 111, 100, 117, 105, 116, 32, 65, 39, 32, 124, 32, 39,
          82, 69, 70, 48, 48, 49, 39, 32, 58, 32, 50, 32, 111, 99, 99, 117, 114, 114, 101, 110,
          99, 101, 115]
   \<and> code_points ''Produit A | REF001 : 2''
       = [80, 114, 111, 100, 117, 105, 116, 32, 65, 32, 124, 32, 82, 69, 70, 48, 48, 49, 32, 58,
          32, 50]
   \<and> msg_top_duplicate ''Produit A'' ''REF001'' 2 \<noteq> code_points ''Produit A | REF001 : 2''"
proof -
  have m: "msg_top_duplicate ''Produit A'' ''REF001'' 2
       = [32, 32, 8226, 32, 39, 80, 114, 111, 100, 117, 105, 116, 32, 65, 39, 32, 124, 32, 39,
          82, 69, 70, 48, 48, 49, 39, 32, 58, 32, 50, 32, 111, 99, 99, 117, 114, 114, 101, 110,
          99, 101, 115]"
    by (simp add: msg_top_duplicate_def code_points_def)
  have c: "code_points ''Produit A | REF001 : 2''
       = [80, 114, 111, 100, 117, 105, 116, 32, 65, 32, 124, 32, 82, 69, 70, 48, 48, 49, 32, 58,
          32, 50]"
    by (simp add: code_points_def)
  have f: "fst (clean_inventory_data stable_sort_values [sample_table] 0 ''designation'' ''reference'')
     = Inr (2, 3, [msg_duplicate_groups 1, msg_top_header,
                   msg_top_duplicate ''Produit A'' ''REF001'' 2])"
    by (simp add: sample_run)
  have ne: "msg_top_duplicate ''Produit A'' ''REF001'' 2 \<noteq> code_points ''Produit A | REF001 : 2''"
    unfolding m c by simp
  from f m c ne show ?thesis by blast
qed

text \<open>
  When the input table has no column named \<open>_temp_key\<close> and
  \<open>clean_inventory_data\<close> returns, \<open>unique_df\<close> and \<open>duplicate_df\<close> have exactly the
  columns of the input, their rows are the cleaned rows of the input that the mask keeps,
  in the order of the input, and a cleaned row holds at every column other than the name
  and the reference column what the input row holds there.
\<close>

lemma other_columns_kept:
  assumes "clean_inventory_data srt st df n r = (Inr (u, d, w), st')"
    and "''_temp_key'' \<notin> set (columns (st ! df))"
  shows "columns (st' ! u) = columns (st ! df) \<and> columns (st' ! d) = columns (st ! df)
       \<and> rows (st' ! u)
           = map (output_row n r) (filter (\<lambda>row. \<not> is_duplicate (st ! df) n r row) (rows (st ! df)))
       \<and> rows (st' ! d)
           = map (output_row n r) (filter (is_duplicate (st ! df) n r) (rows (st ! df)))
       \<and> (\<forall>c \<in> set (columns (st ! df)). c \<noteq> n \<and> c \<noteq> r \<longrightarrow> (\<forall>row. output_row n r row c = row c))"
proof -
  note run = clean_inventory_data_Inr [OF assms(1)]
  have cu: "columns (st' ! u) = columns (st ! df)" using run(8) assms(2) by simp
  have cd: "columns (st' ! d) = columns (st ! df)" using run(9) assms(2) by simp
  have ru: "rows (st' ! u)
      = map (output_row n r) (filter (\<lambda>row. \<not> is_duplicate (st ! df) n r row) (rows (st ! df)))"
    using run(8) by (simp add: rows_unique_table)
  have rd: "rows (st' ! d)
      = map (output_row n r) (filter (is_duplicate (st ! df) n r) (rows (st ! df)))"
    using run(9) by (simp add: rows_duplicate_table)
  have other: "output_row n r row c = row c"
    if "c \<in> set (columns (st ! df))" "c \<noteq> n \<and> c \<noteq> r" for c row
  proof -
    from that(1) assms(2) have "c \<noteq> ''_temp_key''" by auto
    with that(2) show ?thesis by (simp add: output_row_other)
  qed
  show ?thesis
  proof (intro conjI ballI impI allI)
    show "columns (st' ! u) = columns (st ! df)" by (fact cu)
    show "columns (st' ! d) = columns (st ! df)" by (fact cd)
    show "rows (st' ! u)
      = map (output_row n r) (filter (\<lambda>row. \<not> is_duplicate (st ! df) n r row) (rows (st ! df)))"
      by (fact ru)
    show "rows (st' ! d)
      = map (output_row n r) (filter (is_duplicate (st ! df) n r) (rows (st ! df)))"
      by (fact rd)
  next
    fix c row assume "c \<in> set (columns (st ! df))" "c \<noteq> n \<and> c \<noteq> r"
    then show "output_row n r row c = row c" by (rule other)
  qed
qed

text \<open>
  Claim C9. Every column other than the name and the reference column is in
  \<open>unique_df\<close> and \<open>duplicate_df\<close> as it is in the input. The code does not do this
  on a table that has a column named \<open>_temp_key\<close>: line 72 overwrites this column
  with the key and lines 78 and 79 drop it. The table with the columns \<open>name\<close>,
  \<open>ref\<close> and \<open>_temp_key\<close> and the row \<open>bolt\<close>, \<open>B1\<close>, \<open>x\<close> comes back with
  the columns \<open>name\<close> and \<open>ref\<close>, the call raises nothing and warns of nothing, and
  the cell \<open>x\<close> is lost.
\<close>

theorem C9_temp_key_column_lost:
  "columns ([temp_key_table] ! 0) = [''name'', ''ref'', ''_temp_key'']
   \<and> get_col ([temp_key_table] ! 0) ''_temp_key'' = [Text ''x'']
   \<and> fst (clean_inventory_data srt [temp_key_table] 0 ''name'' ''ref'') = Inr (2, 3, [])
   \<and> get_col (snd (clean_inventory_data srt [temp_key_table] 0 ''name'' ''ref'') ! 1) ''_temp_key''
       = [Text ''bolt|B1'']
   \<and> columns (snd (clean_inventory_data srt [temp_key_table] 0 ''name'' ''ref'') ! 2) = [''name'', ''ref'']
   \<and> columns (snd (clean_inventory_data srt [temp_key_table] 0 ''name'' ''ref'') ! 3) = [''name'', ''ref'']
   \<and> length (rows (snd (clean_inventory_data srt [temp_key_table] 0 ''name'' ''ref'') ! 2)) = 1
   \<and> hd (rows (snd (clean_inventory_data srt [temp_key_table] 0 ''name'' ''ref'') ! 2)) ''_temp_key'' = None
   \<and> rows (snd (clean_inventory_data srt [temp_key_table] 0 ''name'' ''ref'') ! 3) = []"
proof -
  have u: "rows (unique_table temp_key_table ''name'' ''ref'')
      = [output_row ''name'' ''ref'' (hd (rows temp_key_table))]"
    by (simp add: unique_table_def is_duplicate_def temp_key_table_def)
  have d: "rows (duplicate_table temp_key_table ''name'' ''ref'') = []"
    by (simp add: duplicate_table_def is_duplicate_def temp_key_table_def)
  have g: "get_col temp_key_table ''_temp_key'' = [Text ''x'']"
    by (simp add: temp_key_table_def get_col_def cell_of_def)
  have k: "get_col (cleaned_table temp_key_table ''name'' ''ref'') ''_temp_key'' = [Text ''bolt|B1'']"
    by (simp add: cleaned_table_def get_col_def temp_key_table_def temp_key_def normalized_row_def
          Let_def bolt_name bolt_ref)
  have o: "output_row ''name'' ''ref'' (hd (rows temp_key_table)) ''_temp_key'' = None"
    by (simp add: output_row_def)
  show ?thesis
    unfolding temp_key_table_run by (simp add: temp_key_table_columns u d g k o)
qed

text \<open>
  Claim C10. \<open>clean_inventory_data\<close> changes no DataFrame that exists when it is
  called: the store after the call is the store before it, followed by the DataFrames
  the call created. So the table of \<open>df\<close> is what it was, and the two DataFrames
  returned are new ones, different from each other.
\<close>

theorem C10_input_not_mutated:
  "(\<exists>new. snd (clean_inventory_data srt st df n r) = st @ new)
   \<and> (df < length st \<longrightarrow> snd (clean_inventory_data srt st df n r) ! df = st ! df)
   \<and> (fst (clean_inventory_data srt st df n r) = Inr (u, d, w) \<longrightarrow>
         length st < u \<and> length st < d \<and> u \<noteq> d
         \<and> u < length (snd (clean_inventory_data srt st df n r))
         \<and> d < length (snd (clean_inventory_data srt st df n r)))"
proof -
  let ?st' = "snd (clean_inventory_data srt st df n r)"
  let ?new = "[cleaned_table (st ! df) n r, unique_table (st ! df) n r, duplicate_table (st ! df) n r]"
  from snd_clean_inventory_data [of srt st df n r]
  have ex: "\<exists>new. ?st' = st @ new"
  proof
    assume "?st' = st"
    then have "?st' = st @ []" by simp
    then show ?thesis by (rule exI)
  next
    assume "?st' = st @ ?new"
    then show ?thesis by (rule exI)
  qed
  then have keep: "df < length st \<longrightarrow> ?st' ! df = st ! df"
    by (auto simp: nth_append)
  have fresh: "length st < u \<and> length st < d \<and> u \<noteq> d \<and> u < length ?st' \<and> d < length ?st'"
    if "fst (clean_inventory_data srt st df n r) = Inr (u, d, w)"
  proof -
    from that have run: "clean_inventory_data srt st df n r = (Inr (u, d, w), ?st')"
      by (metis prod.collapse)
    note f = clean_inventory_data_Inr [OF run]
    show ?thesis using f(5) f(6) f(7) by simp
  qed
  from ex keep fresh show ?thesis by simp
qed

text \<open>The theorem on the sample data.\<close>

theorem C10_input_not_mutated_witness:
  "(0::nat) < length [sample_table]
   \<and> snd (clean_inventory_data stable_sort_values [sample_table] 0 ''designation'' ''reference'') ! 0 = sample_table
   \<and> fst (clean_inventory_data stable_sort_values [sample_table] 0 ''designation'' ''reference'')
       = Inr (2, 3, [msg_duplicate_groups 1, msg_top_header, msg_top_duplicate ''Produit A'' ''REF001'' 2])
   \<and> length (snd (clean_inventory_data stable_sort_values [sample_table] 0 ''designation'' ''reference'')) = 4"
proof -
  let ?w = "[msg_duplicate_groups 1, msg_top_header, msg_top_duplicate ''Produit A'' ''REF001'' 2]"
  have f: "fst (clean_inventory_data stable_sort_values [sample_table] 0 ''designation'' ''reference'') = Inr (2, 3, ?w)"
    by (simp add: sample_run)
  have l: "length (snd (clean_inventory_data stable_sort_values [sample_table] 0 ''designation'' ''reference'')) = 4"
    by (simp add: sample_run)
  from C10_input_not_mutated [of stable_sort_values "[sample_table]" 0 "''designation''" "''reference''" 2 3 ?w]
  have "snd (clean_inventory_data stable_sort_values [sample_table] 0 ''designation'' ''reference'') ! 0 = sample_table"
    by simp
  with f l show ?thesis by simp
qed

end
